theory Spec2Isabelle
  imports Complex_Main "HOL-Library.Word"
begin

unbundle bit_operations_syntax

section \<open>Scalar types (data.hpp, utils.hpp)\<close>

text \<open>
  \<^verbatim>\<open>Float\<close> (\<^verbatim>\<open>_Float32\<close>) is modelled by \<^typ>\<open>real\<close>: every operation is the exact
  real operation, without rounding. \<^verbatim>\<open>IndexType\<close>, \<^verbatim>\<open>IndexPointerType\<close> and
  \<^verbatim>\<open>CountType\<close> (32 bit, unsigned) and \<^verbatim>\<open>CellIndexType\<close> (16 bit, unsigned) are
  modelled by \<^typ>\<open>nat\<close>; the conversion of an \<^verbatim>\<open>int\<close> or \<^verbatim>\<open>double\<close> result to
  \<^verbatim>\<open>CellIndexType\<close> is written out as \<open>u16\<close>. \<^verbatim>\<open>int\<close> is modelled by \<^typ>\<open>int\<close>,
  with the wrap-around written out as \<open>s32\<close> where a square can overflow.
  A pointer \<^verbatim>\<open>const T*\<close> into an array is modelled by the suffix of the array that starts
  at the pointer, so that \<^verbatim>\<open>p[i]\<close> is \<open>p ! i\<close>.
\<close>

type_synonym Float = real
type_synonym IndexType = nat
type_synonym IndexPointerType = nat
type_synonym CellIndexType = nat
type_synonym CountType = nat
type_synonym WeightType = nat

definition u16 :: "int \<Rightarrow> CellIndexType" where
  "u16 x = nat (x mod 65536)"

definition MAX_REAL_DISTANCE :: Float where
  "MAX_REAL_DISTANCE = 340282346638528859811704183484516925440"

definition MAX_COUNT :: CountType where
  "MAX_COUNT = 4294967295"

definition squared :: "'a::times \<Rightarrow> 'a" where
  "squared x = x * x"

text \<open>\<^verbatim>\<open>vec_squared(vec, size)\<close>: the loop \<^verbatim>\<open>for i < size: result += squared(vec[i])\<close>.\<close>

definition vec_squared :: "Float list \<Rightarrow> nat \<Rightarrow> Float" where
  "vec_squared vec n = fold (\<lambda>i result. result + squared (vec ! i)) [0..<n] 0"


section \<open>Topology (topo.hpp, topo.cpp)\<close>

datatype LocalTopology = RECT | HEXA | CIRC

datatype GlobalTopology = TORUS | MOEBIUS | TUBE | PLANE

datatype error = InvalidArgument

type_synonym DistanceFunction = "int \<Rightarrow> int \<Rightarrow> int \<Rightarrow> int \<Rightarrow> int \<Rightarrow> int \<Rightarrow> CellIndexType"

text \<open>
  \<^verbatim>\<open>squared\<close> at \<^verbatim>\<open>int\<close> and the sum of two squares overflow for a coordinate
  difference of 46341 or more. The overflow is undefined in C++; the model takes the value
  that the two's complement target computes, the result wrapped to 32 bits.
\<close>

definition s32 :: "int \<Rightarrow> int" where
  "s32 x = (x + 2147483648) mod 4294967296 - 2147483648"

text \<open>
  \<^verbatim>\<open>std::ceil(std::sqrt(n))\<close> for a non-negative integer \<open>n\<close>: the least \<open>k\<close> with
  \<open>n \<le> k * k\<close>, found by counting up. For a negative \<open>n\<close>, which only a wrapped sum can
  be, the square root is not a number and its conversion to \<^verbatim>\<open>CellIndexType\<close> gives 0.
\<close>

function ceil_sqrt_from :: "nat \<Rightarrow> nat \<Rightarrow> nat" where
  "ceil_sqrt_from n k = (if n \<le> k * k then k else ceil_sqrt_from n (Suc k))"
  by pat_completeness auto
termination
proof (relation "measure (\<lambda>(n, k). n - k)")
  show "wf (measure (\<lambda>(n, k). n - k))" by simp
next
  fix n k :: nat
  assume "\<not> n \<le> k * k"
  then have "k * k < n" by simp
  moreover have "k \<le> k * k" by (cases k) simp_all
  ultimately have "k < n" by linarith
  then show "((n, Suc k), (n, k)) \<in> measure (\<lambda>(n, k). n - k)" by simp
qed

declare ceil_sqrt_from.simps [simp del]

definition ceil_sqrt :: "int \<Rightarrow> int" where
  "ceil_sqrt n = (if n < 0 then 0 else int (ceil_sqrt_from (nat n) 0))"

definition dist_circle_plane :: DistanceFunction where
  "dist_circle_plane y x i j height width =
     u16 (ceil_sqrt (s32 (s32 (squared \<bar>i - y\<bar>) + s32 (squared \<bar>j - x\<bar>))))"

text \<open>
  \<^verbatim>\<open>dist_circle_torus\<close> starts with four asserts, which abort the program in a build
  with assertions when one of them fails: this is the condition that they check. The
  function below is the value that the code computes when they hold, or in a build without
  assertions.
\<close>

definition dist_circle_torus_asserts :: "int \<Rightarrow> int \<Rightarrow> int \<Rightarrow> int \<Rightarrow> bool" where
  "dist_circle_torus_asserts y x height width \<longleftrightarrow> 0 \<le> x \<and> 0 \<le> y \<and> x \<le> width \<and> y \<le> height"

definition dist_circle_torus :: DistanceFunction where
  "dist_circle_torus y x i j height width =
     (let dx = \<bar>j - x\<bar>;
          dy = \<bar>i - y\<bar>
      in u16 (ceil_sqrt (s32 (s32 (squared (min dx (width - dx)))
                               + s32 (squared (min dy (height - dy)))))))"

definition dist_hexa_plane :: DistanceFunction where
  "dist_hexa_plane row1 col1 row2 col2 height width =
     (let a = u16 \<bar>row1 - row2\<bar>;
          b = u16 \<bar>col1 - col2 - (row1 - (row1 AND 1)) div 2 + (row2 - (row2 AND 1)) div 2\<bar>;
          c = u16 \<bar>col1 - col2 + row1 - row2
                    - (row1 - (row1 AND 1)) div 2 + (row2 - (row2 AND 1)) div 2\<bar>
      in Max {a, b, c})"

definition dist_hexa_torus :: DistanceFunction where
  "dist_hexa_torus row1 col1 row2 col2 height width =
     (let a = dist_hexa_plane row1 col1 row2 col2 0 0;
          b = dist_hexa_plane row1 col1 (row2 + height) col2 0 0;
          c = dist_hexa_plane row1 col1 row2 (col2 + width) 0 0;
          d = dist_hexa_plane row1 col1 (row2 + height) (col2 + width) 0 0;
          e = dist_hexa_plane (row1 + height) col1 row2 col2 0 0;
          f = dist_hexa_plane row1 (col1 + width) row2 col2 0 0;
          g = dist_hexa_plane (row1 + height) (col1 + width) row2 col2 0 0
      in Min {a, b, c, d, e, f, g})"

definition dist_rect_plane :: DistanceFunction where
  "dist_rect_plane y x i j height width = u16 (max \<bar>i - y\<bar> \<bar>j - x\<bar>)"

definition dist_rect_torus :: DistanceFunction where
  "dist_rect_torus y x i j height width =
     (let dx = \<bar>j - x\<bar>;
          dy = \<bar>i - y\<bar>;
          dx = min dx (width - dx);
          dy = min dy (height - dy)
      in u16 (max dx dy))"

fun distance_function :: "GlobalTopology \<Rightarrow> LocalTopology \<Rightarrow> error + DistanceFunction" where
  "distance_function PLANE CIRC = Inr dist_circle_plane"
| "distance_function PLANE HEXA = Inr dist_hexa_plane"
| "distance_function PLANE RECT = Inr dist_rect_plane"
| "distance_function TORUS CIRC = Inr dist_circle_torus"
| "distance_function TORUS HEXA = Inr dist_hexa_torus"
| "distance_function TORUS RECT = Inr dist_rect_torus"
| "distance_function _ _ = Inl InvalidArgument"


section \<open>Sparse corpus (data.hpp, data.cpp)\<close>

text \<open>
  The fields \<^verbatim>\<open>_sum_of_squares\<close> (a pointer, null until \<^verbatim>\<open>init_sum_of_squares\<close> runs) and
  \<^verbatim>\<open>_has_weights\<close> are written without the leading underscore.
\<close>

record BinarySparseMatrix =
  indices :: "IndexType list"
  index_pointers :: "IndexPointerType list"
  weights :: "WeightType list"
  num_rows :: IndexPointerType
  num_cols :: IndexType
  num_non_zero :: IndexPointerType
  sum_of_squares :: "IndexType list option"
  has_weights :: bool

definition indices_in_row :: "BinarySparseMatrix \<Rightarrow> nat \<Rightarrow> IndexType list" where
  "indices_in_row data row = drop (index_pointers data ! row) (indices data)"

definition weights_in_row :: "BinarySparseMatrix \<Rightarrow> nat \<Rightarrow> WeightType list" where
  "weights_in_row data row = drop (index_pointers data ! row) (weights data)"

definition num_indices_in_row :: "BinarySparseMatrix \<Rightarrow> nat \<Rightarrow> IndexType" where
  "num_indices_in_row data row =
     nat ((int (index_pointers data ! (row + 1)) - int (index_pointers data ! row)) mod 2 ^ 32)"

text \<open>
  \<^verbatim>\<open>squared(weights[i])\<close> instantiates the template at \<^verbatim>\<open>WeightType\<close>, so the square is
  converted back to 8 bits; the sum is accumulated in an \<^verbatim>\<open>IndexType\<close>.
\<close>

definition init_sum_of_squares :: "BinarySparseMatrix \<Rightarrow> BinarySparseMatrix" where
  "init_sum_of_squares data =
     data\<lparr>sum_of_squares := Some (map (\<lambda>row.
        let num_non_zero_entries_in_row = num_indices_in_row data row
        in if has_weights data
           then fold (\<lambda>i s. (s + squared (weights_in_row data row ! i) mod 256) mod 2 ^ 32)
                     [0..<num_non_zero_entries_in_row] 0
           else num_non_zero_entries_in_row) [0..<num_rows data])\<rparr>"


section \<open>Neighbourhood (som.hpp, som.cpp)\<close>

record TopographicDiscontinuity =
  cell1 :: CellIndexType
  cell2 :: CellIndexType
  distance :: CellIndexType

record Neighbourhood =
  height :: CellIndexType
  width :: CellIndexType
  num_cells :: CellIndexType
  distance :: DistanceFunction
  update_exponent :: Float
  initial_radius :: CellIndexType
  radius_min :: Float
  radius_max :: Float
  "values" :: "Float list"

definition SQRT_E :: real where
  "SQRT_E = 16487212707001281468486507878142 / 10 ^ 31"

text \<open>The constructor; \<^verbatim>\<open>distance_function\<close> may throw.\<close>

definition Neighbourhood_new ::
  "CellIndexType \<Rightarrow> CellIndexType \<Rightarrow> GlobalTopology \<Rightarrow> LocalTopology \<Rightarrow> Float \<Rightarrow> CellIndexType
   \<Rightarrow> error + Neighbourhood" where
  "Neighbourhood_new h w golbal_topology local_topology exponent radius =
     (case distance_function golbal_topology local_topology of
        Inl e \<Rightarrow> Inl e
      | Inr fn \<Rightarrow>
          Inr \<lparr>Neighbourhood.height = h,
               width = w,
               num_cells = u16 (int h * int w),
               distance = fn,
               update_exponent = exponent,
               initial_radius = radius,
               radius_min = real radius,
               radius_max = real radius,
               values = replicate (u16 (int h * int w)) (real radius)\<rparr>)"

text \<open>
  \<^verbatim>\<open>squared(d)\<close> instantiates the template at \<^verbatim>\<open>CellIndexType\<close>, so the square is
  converted back to 16 bits. The height and width arguments of the distance call are in the
  order of the source.
\<close>

definition influence :: "Neighbourhood \<Rightarrow> CellIndexType \<Rightarrow> CellIndexType \<Rightarrow> Float" where
  "influence nb source_cell target_cell =
     (let y1 = source_cell div Neighbourhood.width nb;
          x1 = source_cell mod Neighbourhood.width nb;
          y2 = target_cell div Neighbourhood.width nb;
          x2 = target_cell mod Neighbourhood.width nb;
          d = Neighbourhood.distance nb (int y1) (int x1) (int y2) (int x2)
                (int (Neighbourhood.width nb)) (int (Neighbourhood.height nb));
          r = values nb ! target_cell
      in if real d < r
         then (1 - SQRT_E * exp (- 0.5 * real (u16 (int (squared d))) / squared r))
              / (r * (1 - SQRT_E))
         else 0)"

definition radius_from_discontinuity ::
  "Neighbourhood \<Rightarrow> CellIndexType \<Rightarrow> TopographicDiscontinuity \<Rightarrow> CellIndexType" where
  "radius_from_discontinuity nb cell_index discontinuity =
     (let y = cell_index div Neighbourhood.width nb;
          x = cell_index mod Neighbourhood.width nb;
          y1 = cell1 discontinuity div Neighbourhood.width nb;
          x1 = cell1 discontinuity mod Neighbourhood.width nb;
          y2 = cell2 discontinuity div Neighbourhood.width nb;
          x2 = cell2 discontinuity mod Neighbourhood.width nb;
          d1 = Neighbourhood.distance nb (int y) (int x) (int y1) (int x1)
                 (int (Neighbourhood.height nb)) (int (Neighbourhood.width nb));
          d2 = Neighbourhood.distance nb (int y) (int x) (int y2) (int x2)
                 (int (Neighbourhood.height nb)) (int (Neighbourhood.width nb))
      in if max d1 d2 \<le> TopographicDiscontinuity.distance discontinuity
         then TopographicDiscontinuity.distance discontinuity
         else if min d1 d2 < TopographicDiscontinuity.distance discontinuity
         then u16 (int (TopographicDiscontinuity.distance discontinuity) - int (min d1 d2))
         else 1)"

text \<open>The loop over the rows, pushing a discontinuity for each row with distance above 1.\<close>

definition topographic_discontinuities ::
  "Neighbourhood \<Rightarrow> CellIndexType list \<Rightarrow> CellIndexType list \<Rightarrow> IndexPointerType
   \<Rightarrow> TopographicDiscontinuity list" where
  "topographic_discontinuities nb best_matching_units next_best_matching_units n_rows =
     fold (\<lambda>row discontinuities.
        let c1 = best_matching_units ! row;
            c2 = next_best_matching_units ! row;
            y1 = c1 div Neighbourhood.width nb;
            x1 = c1 mod Neighbourhood.width nb;
            y2 = c2 div Neighbourhood.width nb;
            x2 = c2 mod Neighbourhood.width nb;
            d = Neighbourhood.distance nb (int y1) (int x1) (int y2) (int x2)
                  (int (Neighbourhood.height nb)) (int (Neighbourhood.width nb))
        in if d > 1
           then discontinuities @ [\<lparr>cell1 = c1, cell2 = c2, distance = d\<rparr>]
           else discontinuities)
       [0..<n_rows] []"

text \<open>The body of the loop over the cells in \<^verbatim>\<open>Neighbourhood::update\<close>.\<close>

definition update_cell ::
  "TopographicDiscontinuity list \<Rightarrow> bool \<Rightarrow> CellIndexType \<Rightarrow> Neighbourhood \<Rightarrow> Neighbourhood" where
  "update_cell discontinuities respect_lower_bound cell_index nb =
     (let radius_lower_bound =
            fold (\<lambda>discontinuity lb. max lb (real (radius_from_discontinuity nb cell_index discontinuity)))
                 discontinuities 1;
          new_value =
            (if respect_lower_bound
             then max radius_lower_bound (values nb ! cell_index powr update_exponent nb)
             else values nb ! cell_index powr update_exponent nb)
      in nb\<lparr>values := (values nb)[cell_index := new_value],
            radius_min := min (radius_min nb) new_value,
            radius_max := max (radius_max nb) new_value\<rparr>)"

text \<open>\<^verbatim>\<open>Neighbourhood::update\<close> returns the updated neighbourhood and the topographic error.\<close>

definition update ::
  "Neighbourhood \<Rightarrow> CellIndexType list \<Rightarrow> CellIndexType list \<Rightarrow> IndexPointerType \<Rightarrow> bool
   \<Rightarrow> Neighbourhood \<times> Float" where
  "update nb best_matching_units next_best_matching_units n_rows respect_lower_bound =
     (let discontinuities =
            topographic_discontinuities nb best_matching_units next_best_matching_units n_rows;
          nb1 = nb\<lparr>radius_min := MAX_REAL_DISTANCE, radius_max := 0\<rparr>;
          nb2 = fold (update_cell discontinuities respect_lower_bound)
                     [0..<Neighbourhood.num_cells nb1] nb1
      in (nb2, real (length discontinuities + 1) / real n_rows))"


section \<open>Codebook (som.hpp, som.cpp)\<close>

text \<open>The field \<^verbatim>\<open>size\<close> is written \<open>size'\<close>.\<close>

record Codebook =
  width :: CellIndexType
  height :: CellIndexType
  input_dim :: IndexType
  num_cells :: CellIndexType
  size' :: IndexPointerType
  global_topology :: GlobalTopology
  local_topology :: LocalTopology
  distance :: DistanceFunction
  array :: "Float list"

text \<open>The constructor reserves the array and leaves it empty; \<^verbatim>\<open>init\<close> resizes it.\<close>

definition Codebook_new ::
  "CellIndexType \<Rightarrow> CellIndexType \<Rightarrow> IndexType \<Rightarrow> GlobalTopology \<Rightarrow> LocalTopology
   \<Rightarrow> error + Codebook" where
  "Codebook_new h w in_dim gt lt =
     (case distance_function gt lt of
        Inl e \<Rightarrow> Inl e
      | Inr fn \<Rightarrow>
          Inr \<lparr>Codebook.width = w,
               height = h,
               input_dim = in_dim,
               num_cells = u16 (int h * int w),
               size' = (u16 (int h * int w) * in_dim) mod 2 ^ 32,
               global_topology = gt,
               local_topology = lt,
               distance = fn,
               array = []\<rparr>)"

text \<open>
  \<^verbatim>\<open>Codebook::init\<close>: the value that the random number generator of the executing thread
  draws for the entry \<open>i\<close> is the parameter \<open>uniform i\<close>, a sample of
  \<^verbatim>\<open>std::uniform_real_distribution<Float>(0.f, 1.f)\<close>.
\<close>

definition init :: "Codebook \<Rightarrow> (nat \<Rightarrow> Float) \<Rightarrow> Codebook" where
  "init cb uniform = cb\<lparr>array := map uniform [0..<size' cb]\<rparr>"

text \<open>
  The loops of \<^verbatim>\<open>product_with_weights\<close> and \<^verbatim>\<open>product\<close> run over the first
  \<^verbatim>\<open>num_non_zero\<close> entries of \<^verbatim>\<open>indices\<close> and break at the first index that is not
  below \<^verbatim>\<open>effective_input_dim\<close>.
\<close>

fun product_with_weights_loop ::
  "IndexType list \<Rightarrow> Float list \<Rightarrow> WeightType list \<Rightarrow> IndexType \<Rightarrow> Float \<Rightarrow> Float" where
  "product_with_weights_loop [] vals ws effective_input_dim result = result"
| "product_with_weights_loop (idx # rest) vals ws effective_input_dim result =
     (if idx < effective_input_dim
      then product_with_weights_loop rest vals ws effective_input_dim
             (result + vals ! idx * real (ws ! idx))
      else result)"

definition product_with_weights ::
  "IndexType list \<Rightarrow> IndexType \<Rightarrow> Float list \<Rightarrow> WeightType list \<Rightarrow> IndexType \<Rightarrow> Float" where
  "product_with_weights idxs n_non_zero vals ws effective_input_dim =
     product_with_weights_loop (take n_non_zero idxs) vals ws effective_input_dim 0"

fun product_loop :: "IndexType list \<Rightarrow> Float list \<Rightarrow> IndexType \<Rightarrow> Float \<Rightarrow> Float" where
  "product_loop [] vals effective_input_dim result = result"
| "product_loop (idx # rest) vals effective_input_dim result =
     (if idx \<ge> effective_input_dim
      then result
      else product_loop rest vals effective_input_dim (result + vals ! idx))"

definition product :: "IndexType list \<Rightarrow> IndexType \<Rightarrow> Float list \<Rightarrow> IndexType \<Rightarrow> Float" where
  "product idxs n_non_zero vals effective_input_dim =
     product_loop (take n_non_zero idxs) vals effective_input_dim 0"

text \<open>
  \<^verbatim>\<open>Codebook::find_best_matching_units\<close>. The output arrays are the pair
  (best matching units, distances). The body of the loop over the rows for one cell:
\<close>

definition find_best_matching_units_row ::
  "BinarySparseMatrix \<Rightarrow> IndexType \<Rightarrow> nat \<Rightarrow> Float list \<Rightarrow> Float \<Rightarrow> nat
   \<Rightarrow> CellIndexType list \<times> Float list \<Rightarrow> CellIndexType list \<times> Float list" where
  "find_best_matching_units_row data effective_input_dim cell_index w w_squared row st =
     (let x = indices_in_row data row;
          ws = weights_in_row data row;
          num_non_zero_in_row = num_indices_in_row data row
      in if num_non_zero_in_row = 0 then st
         else if x ! 0 \<ge> effective_input_dim then st
         else
           let dist_rc =
                 (if has_weights data
                  then w_squared
                       - 2 * product_with_weights x num_non_zero_in_row w ws effective_input_dim
                  else w_squared - 2 * product x num_non_zero_in_row w effective_input_dim)
           in if dist_rc < snd st ! row
              then ((fst st)[row := cell_index], (snd st)[row := dist_rc])
              else st)"

definition find_best_matching_units ::
  "Codebook \<Rightarrow> BinarySparseMatrix \<Rightarrow> IndexType \<Rightarrow> bool \<Rightarrow> CellIndexType list \<times> Float list" where
  "find_best_matching_units cb data train_vocab_cutoff need_correct_distances =
     (let effective_input_dim =
            (if train_vocab_cutoff > 0 then train_vocab_cutoff else num_cols data);
          st0 = (replicate (num_rows data) 0, replicate (num_rows data) MAX_REAL_DISTANCE);
          st1 = fold (\<lambda>cell_index st.
                  let w = drop (cell_index * input_dim cb) (array cb);
                      w_squared = vec_squared w (input_dim cb)
                  in fold (find_best_matching_units_row data effective_input_dim cell_index w w_squared)
                          [0..<num_rows data] st)
                [0..<Codebook.num_cells cb] st0
      in if need_correct_distances
         then (fst st1,
               fold (\<lambda>row ds. ds[row := max 0 (ds ! row + real (the (sum_of_squares data) ! row))])
                    [0..<num_rows data] (snd st1))
         else st1)"

text \<open>
  \<^verbatim>\<open>Codebook::find_best_and_next_best_matching_units\<close>. The four output arrays are
  collected in a record.
\<close>

record bmu_arrays =
  best_matching_units :: "CellIndexType list"
  distances :: "Float list"
  next_best_matching_units :: "CellIndexType list"
  next_distances :: "Float list"

text \<open>The value of the local variable \<^verbatim>\<open>distance\<close> for one cell and one row.\<close>

definition dual_distance ::
  "BinarySparseMatrix \<Rightarrow> IndexType \<Rightarrow> Float list \<Rightarrow> Float \<Rightarrow> nat \<Rightarrow> Float" where
  "dual_distance data effective_input_dim w w_squared row =
     (let idxs = indices_in_row data row;
          ws = weights_in_row data row;
          num_non_zero_in_row = num_indices_in_row data row
      in if has_weights data
         then w_squared
              - 2 * product_with_weights idxs num_non_zero_in_row w ws effective_input_dim
              + real (the (sum_of_squares data) ! row)
         else w_squared - 2 * product idxs num_non_zero_in_row w effective_input_dim
              + real (the (sum_of_squares data) ! row))"

definition find_best_and_next_row ::
  "BinarySparseMatrix \<Rightarrow> IndexType \<Rightarrow> nat \<Rightarrow> Float list \<Rightarrow> Float \<Rightarrow> nat \<Rightarrow> bmu_arrays \<Rightarrow> bmu_arrays"
  where
  "find_best_and_next_row data effective_input_dim cell_index w w_squared row st =
     (if num_indices_in_row data row = 0 then st
      else if indices_in_row data row ! 0 \<ge> effective_input_dim then st
      else
        let dist_rc = dual_distance data effective_input_dim w w_squared row
        in if dist_rc < distances st ! row
           then st\<lparr>next_best_matching_units :=
                      (next_best_matching_units st)[row := best_matching_units st ! row],
                    next_distances := (next_distances st)[row := distances st ! row],
                    best_matching_units := (best_matching_units st)[row := cell_index],
                    distances := (distances st)[row := max 0 dist_rc]\<rparr>
           else st)"

definition find_best_and_next_best_matching_units ::
  "Codebook \<Rightarrow> BinarySparseMatrix \<Rightarrow> IndexType \<Rightarrow> bmu_arrays" where
  "find_best_and_next_best_matching_units cb data train_vocab_cutoff =
     (let st0 = \<lparr>best_matching_units = replicate (num_rows data) 0,
                 distances = replicate (num_rows data) MAX_REAL_DISTANCE,
                 next_best_matching_units = replicate (num_rows data) 0,
                 next_distances = replicate (num_rows data) MAX_REAL_DISTANCE\<rparr>;
          effective_input_dim =
            (if train_vocab_cutoff > 0 then train_vocab_cutoff else input_dim cb)
      in fold (\<lambda>cell_index st.
            let w = drop (cell_index * effective_input_dim) (array cb);
                w_squared = vec_squared w effective_input_dim
            in fold (find_best_and_next_row data effective_input_dim cell_index w w_squared)
                    [0..<num_rows data] st)
          [0..<Codebook.num_cells cb] st0)"

text \<open>
  \<^verbatim>\<open>Codebook::apply_batch_som_update\<close>. The inner loop over the indices of a row, with its
  break, updates the numerator buffer:
\<close>

fun numerator_loop :: "IndexType list \<Rightarrow> IndexType \<Rightarrow> Float \<Rightarrow> Float list \<Rightarrow> Float list" where
  "numerator_loop [] effective_input_dim learning_rate numerator = numerator"
| "numerator_loop (idx # rest) effective_input_dim learning_rate numerator =
     (if idx \<ge> effective_input_dim
      then numerator
      else numerator_loop rest effective_input_dim learning_rate
             (numerator[idx := numerator ! idx + learning_rate]))"

text \<open>The body of the loop over the rows; the state is (denominator, numerator).\<close>

definition batch_row ::
  "BinarySparseMatrix \<Rightarrow> Neighbourhood \<Rightarrow> CellIndexType list \<Rightarrow> IndexType \<Rightarrow> CellIndexType \<Rightarrow> nat
   \<Rightarrow> Float \<times> Float list \<Rightarrow> Float \<times> Float list" where
  "batch_row data neighbourhood bmus effective_input_dim cell_index row st =
     (let idxs = indices_in_row data row;
          num_non_zero_in_row = num_indices_in_row data row;
          learning_rate = influence neighbourhood (bmus ! row) cell_index
      in if learning_rate \<le> 0 then st
         else (fst st + learning_rate,
               numerator_loop (take num_non_zero_in_row idxs) effective_input_dim learning_rate
                 (snd st)))"

text \<open>The body of the loop over the cells.\<close>

definition batch_cell ::
  "BinarySparseMatrix \<Rightarrow> Neighbourhood \<Rightarrow> CellIndexType list \<Rightarrow> IndexType \<Rightarrow> CellIndexType
   \<Rightarrow> Codebook \<Rightarrow> Codebook" where
  "batch_cell data neighbourhood bmus effective_input_dim cell_index cb =
     (let st = fold (batch_row data neighbourhood bmus effective_input_dim cell_index)
                    [0..<num_rows data] (0, replicate (input_dim cb) 0);
          denominator = fst st;
          numerator = snd st
      in if denominator \<noteq> 0
         then cb\<lparr>array := fold (\<lambda>i arr. arr[cell_index * input_dim cb + i := numerator ! i / denominator])
                                  [0..<input_dim cb] (array cb)\<rparr>
         else cb)"

definition apply_batch_som_update ::
  "Codebook \<Rightarrow> BinarySparseMatrix \<Rightarrow> Neighbourhood \<Rightarrow> CellIndexType list \<Rightarrow> IndexType \<Rightarrow> Codebook"
  where
  "apply_batch_som_update cb data neighbourhood bmus train_vocab_cutoff =
     (let effective_input_dim =
            (if train_vocab_cutoff > 0 then train_vocab_cutoff else input_dim cb)
      in fold (batch_cell data neighbourhood bmus effective_input_dim)
              [0..<Codebook.num_cells cb] cb)"

definition quantization_error :: "Float list \<Rightarrow> IndexPointerType \<Rightarrow> Float" where
  "quantization_error ds n_rows =
     sqrt (fold (\<lambda>row e. e + squared (ds ! row)) [0..<n_rows] 0) / real n_rows"

text \<open>
  The loop that marks the cells in use, in \<^verbatim>\<open>gap_error\<close> and in \<^verbatim>\<open>assign_dead_cells\<close>:
  it runs over the rows while \<^verbatim>\<open>num_cells_used < num_cells\<close>. The state is
  (\<^verbatim>\<open>cell_in_use\<close>, \<^verbatim>\<open>num_cells_used\<close>).
\<close>

fun cell_in_use_loop ::
  "CellIndexType list \<Rightarrow> CellIndexType \<Rightarrow> bool list \<times> CellIndexType \<Rightarrow> bool list \<times> CellIndexType"
  where
  "cell_in_use_loop [] n_cells st = st"
| "cell_in_use_loop (b # bs) n_cells (cell_in_use, num_cells_used) =
     (if num_cells_used < n_cells
      then if \<not> cell_in_use ! b
           then cell_in_use_loop bs n_cells (cell_in_use[b := True], num_cells_used + 1)
           else cell_in_use_loop bs n_cells (cell_in_use, num_cells_used)
      else (cell_in_use, num_cells_used))"

definition gap_error :: "Codebook \<Rightarrow> CellIndexType list \<Rightarrow> IndexPointerType \<Rightarrow> Float" where
  "gap_error cb bmus n_rows =
     (let st = cell_in_use_loop (take n_rows bmus) (Codebook.num_cells cb)
                 (replicate (Codebook.num_cells cb) False, 0)
      in real_of_int (int (Codebook.num_cells cb) - int (snd st)) / real (Codebook.num_cells cb))"

text \<open>
  \<^verbatim>\<open>Codebook::assign_dead_cells\<close>. The loop that collects the worst matching inputs runs
  over the rows while \<^verbatim>\<open>i < num_cells_unused\<close>; the rows collected so far are
  \<^verbatim>\<open>worst_matching_inputs[0..i)\<close>.
\<close>

fun worst_matching_inputs_loop ::
  "nat list \<Rightarrow> Float list \<Rightarrow> Float \<Rightarrow> CellIndexType \<Rightarrow> nat list \<Rightarrow> nat list" where
  "worst_matching_inputs_loop [] ds distance_threshold num_cells_unused worst = worst"
| "worst_matching_inputs_loop (row # rows) ds distance_threshold num_cells_unused worst =
     (if length worst < num_cells_unused
      then if ds ! row \<ge> distance_threshold
           then worst_matching_inputs_loop rows ds distance_threshold num_cells_unused
                  (worst @ [row])
           else worst_matching_inputs_loop rows ds distance_threshold num_cells_unused worst
      else worst)"

text \<open>
  The loop that assigns the unused cells runs over the cells while
  \<^verbatim>\<open>i < num_cells_unused\<close>; the state is (\<^verbatim>\<open>i\<close>, \<^verbatim>\<open>best_matching_units\<close>).
\<close>

fun assign_loop ::
  "CellIndexType list \<Rightarrow> bool list \<Rightarrow> nat list \<Rightarrow> CellIndexType \<Rightarrow> nat \<times> CellIndexType list
   \<Rightarrow> nat \<times> CellIndexType list" where
  "assign_loop [] cell_in_use worst num_cells_unused st = st"
| "assign_loop (cell # cells) cell_in_use worst num_cells_unused (i, bmus) =
     (if i < num_cells_unused
      then if \<not> cell_in_use ! cell
           then assign_loop cells cell_in_use worst num_cells_unused
                  (i + 1, bmus[worst ! i := cell])
           else assign_loop cells cell_in_use worst num_cells_unused (i, bmus)
      else (i, bmus))"

text \<open>
  \<^verbatim>\<open>std::partial_sort_copy\<close> with \<^verbatim>\<open>std::greater\<close> into a buffer of
  \<^verbatim>\<open>num_cells_unused\<close> entries: the largest distances, in descending order.
\<close>

definition largest_distances :: "Float list \<Rightarrow> IndexPointerType \<Rightarrow> nat \<Rightarrow> Float list" where
  "largest_distances ds n_rows num_cells_unused = take num_cells_unused (rev (sort (take n_rows ds)))"

text \<open>
  The function returns the best-matching-unit array and the distances array as they are
  after the call, and the returned gap error.
\<close>

definition assign_dead_cells ::
  "Codebook \<Rightarrow> CellIndexType list \<Rightarrow> Float list \<Rightarrow> IndexPointerType
   \<Rightarrow> CellIndexType list \<times> Float list \<times> Float" where
  "assign_dead_cells cb bmus ds n_rows =
     (let st = cell_in_use_loop (take n_rows bmus) (Codebook.num_cells cb)
                 (replicate (Codebook.num_cells cb) False, 0);
          cell_in_use = fst st;
          num_cells_used = snd st;
          num_cells_unused = u16 (int (Codebook.num_cells cb) - int num_cells_used)
      in if num_cells_unused = 0 \<or> num_cells_unused > n_rows
         then (bmus, ds, 0)
         else
           let distance_threshold =
                 largest_distances ds n_rows num_cells_unused ! (num_cells_unused - 1);
               worst_matching_inputs =
                 worst_matching_inputs_loop [0..<n_rows] ds distance_threshold num_cells_unused [];
               bmus' = snd (assign_loop [0..<Codebook.num_cells cb] cell_in_use
                              worst_matching_inputs num_cells_unused (0, bmus))
           in (bmus', ds, real num_cells_unused / real (Codebook.num_cells cb)))"

text \<open>
  \<^verbatim>\<open>Codebook::diffusion_error\<close>; \<^verbatim>\<open>total_distance\<close> is an \<^verbatim>\<open>IndexPointerType\<close>. The
  height and width arguments of the distance call are in the order of the source.
\<close>

definition diffusion_error ::
  "Codebook \<Rightarrow> CellIndexType list \<Rightarrow> CellIndexType list \<Rightarrow> IndexPointerType \<Rightarrow> Float" where
  "diffusion_error cb bmus previous_bmus n_rows =
     (let total_distance =
            fold (\<lambda>row total.
               let source_cell = previous_bmus ! row;
                   target_cell = bmus ! row
               in if source_cell \<noteq> target_cell
                  then (total
                        + Codebook.distance cb
                            (int (source_cell div Codebook.width cb))
                            (int (source_cell mod Codebook.width cb))
                            (int (target_cell div Codebook.width cb))
                            (int (target_cell mod Codebook.width cb))
                            (int (Codebook.width cb)) (int (Codebook.height cb))) mod 2 ^ 32
                  else total)
              [0..<n_rows] 0
      in real total_distance / real n_rows)"


section \<open>Training loop (som.cpp)\<close>

text \<open>
  A line of the convergence log, without its time stamp. The local variables of
  \<^verbatim>\<open>train\<close> are the fields of \<open>train_state\<close>, written with the prefix \<open>t_\<close>; the
  arrays allocated by \<^verbatim>\<open>train\<close> are written before they are read, and start empty here.
  Saving the preliminary neighbourhood files is left out.
\<close>

record convergence_row =
  Epoch :: nat
  RadiusMin :: Float
  RadiusMax :: Float
  QuantizationError :: Float
  TopographicError :: Float
  GapError :: Float
  DiffusionError :: Float

record train_state =
  t_codebook :: Codebook
  t_neighbourhood :: Neighbourhood
  t_best_matching_units :: "CellIndexType list"
  t_previous_best_matching_units :: "CellIndexType list"
  t_distances :: "Float list"
  t_next_best_matching_units :: "CellIndexType list"
  t_next_distances :: "Float list"
  t_diffusion_error :: Float
  t_gap_error :: Float
  convergence_log :: "convergence_row list"

definition train_epoch ::
  "BinarySparseMatrix \<Rightarrow> nat \<Rightarrow> bool \<Rightarrow> IndexType \<Rightarrow> nat \<Rightarrow> nat \<Rightarrow> train_state \<Rightarrow> train_state"
  where
  "train_epoch data num_epochs respect_lower_bound train_vocab_cutoff dead_cell_update_strides
     epoch st =
     (let found = find_best_and_next_best_matching_units (t_codebook st) data train_vocab_cutoff;
          st1 = st\<lparr>t_best_matching_units := best_matching_units found,
                   t_distances := distances found,
                   t_next_best_matching_units := next_best_matching_units found,
                   t_next_distances := next_distances found\<rparr>;
          st2 = (if dead_cell_update_strides > 0 \<and> epoch mod dead_cell_update_strides = 0
                 then case assign_dead_cells (t_codebook st1) (t_best_matching_units st1)
                             (t_distances st1) (num_rows data) of
                        (bmus, ds, gap) \<Rightarrow>
                          st1\<lparr>t_best_matching_units := bmus, t_distances := ds, t_gap_error := gap\<rparr>
                 else st1\<lparr>t_gap_error :=
                            gap_error (t_codebook st1) (t_best_matching_units st1) (num_rows data)\<rparr>);
          st3 = (if epoch > 1
                 then st2\<lparr>t_diffusion_error :=
                            diffusion_error (t_codebook st2) (t_best_matching_units st2)
                              (t_previous_best_matching_units st2) (num_rows data)\<rparr>
                 else st2);
          st4 = st3\<lparr>t_previous_best_matching_units := t_best_matching_units st3\<rparr>;
          st5 = (if epoch < num_epochs
                 then st4\<lparr>t_codebook :=
                            apply_batch_som_update (t_codebook st4) data (t_neighbourhood st4)
                              (t_best_matching_units st4) train_vocab_cutoff\<rparr>
                 else st4\<lparr>t_codebook :=
                            apply_batch_som_update (t_codebook st4) data (t_neighbourhood st4)
                              (t_best_matching_units st4) 0\<rparr>);
          updated = update (t_neighbourhood st5) (t_best_matching_units st5)
                      (t_next_best_matching_units st5) (num_rows data) respect_lower_bound;
          topographic_error = snd updated;
          st6 = st5\<lparr>t_neighbourhood := fst updated\<rparr>
      in st6\<lparr>convergence_log := convergence_log st6 @
                [\<lparr>Epoch = epoch - 1,
                  RadiusMin = radius_min (t_neighbourhood st6),
                  RadiusMax = radius_max (t_neighbourhood st6),
                  QuantizationError = quantization_error (t_distances st6) (num_rows data),
                  TopographicError = topographic_error,
                  GapError = t_gap_error st6,
                  DiffusionError = t_diffusion_error st6\<rparr>]\<rparr>)"

definition train_final ::
  "BinarySparseMatrix \<Rightarrow> nat \<Rightarrow> bool \<Rightarrow> IndexType \<Rightarrow> train_state \<Rightarrow> train_state" where
  "train_final data num_epochs respect_lower_bound train_vocab_cutoff st =
     (let found = find_best_and_next_best_matching_units (t_codebook st) data train_vocab_cutoff;
          st1 = st\<lparr>t_best_matching_units := best_matching_units found,
                   t_distances := distances found,
                   t_next_best_matching_units := next_best_matching_units found,
                   t_next_distances := next_distances found\<rparr>;
          st2 = st1\<lparr>t_gap_error :=
                      gap_error (t_codebook st1) (t_best_matching_units st1) (num_rows data)\<rparr>;
          updated = update (t_neighbourhood st2) (t_best_matching_units st2)
                      (t_next_best_matching_units st2) (num_rows data) respect_lower_bound;
          topographic_error = snd updated;
          st3 = st2\<lparr>t_neighbourhood := fst updated\<rparr>;
          st4 = st3\<lparr>t_diffusion_error :=
                      diffusion_error (t_codebook st3) (t_best_matching_units st3)
                        (t_previous_best_matching_units st3) (num_rows data)\<rparr>
      in st4\<lparr>convergence_log := convergence_log st4 @
                [\<lparr>Epoch = num_epochs,
                  RadiusMin = radius_min (t_neighbourhood st4),
                  RadiusMax = radius_max (t_neighbourhood st4),
                  QuantizationError = quantization_error (t_distances st4) (num_rows data),
                  TopographicError = topographic_error,
                  GapError = t_gap_error st4,
                  DiffusionError = t_diffusion_error st4\<rparr>]\<rparr>)"

definition train ::
  "Codebook \<Rightarrow> Neighbourhood \<Rightarrow> BinarySparseMatrix \<Rightarrow> nat \<Rightarrow> bool \<Rightarrow> IndexType \<Rightarrow> nat
   \<Rightarrow> train_state" where
  "train cb nb data num_epochs respect_lower_bound train_vocab_cutoff dead_cell_update_strides =
     (let st0 = \<lparr>t_codebook = cb,
                 t_neighbourhood = nb,
                 t_best_matching_units = [],
                 t_previous_best_matching_units = [],
                 t_distances = [],
                 t_next_best_matching_units = [],
                 t_next_distances = [],
                 t_diffusion_error = 0,
                 t_gap_error = 0,
                 convergence_log = []\<rparr>;
          st1 = fold (train_epoch data num_epochs respect_lower_bound train_vocab_cutoff
                        dead_cell_update_strides)
                     [1..<num_epochs + 1] st0
      in train_final data num_epochs respect_lower_bound train_vocab_cutoff st1)"


section \<open>Semantic map (smap.hpp, smap.cpp)\<close>

text \<open>
  The pointer \<^verbatim>\<open>counts\<close> is an option: \<open>None\<close> is the null pointer that
  \<^verbatim>\<open>delete_counts\<close> leaves. The index into \<^verbatim>\<open>counts\<close> is computed in 32 bit
  unsigned arithmetic.
\<close>

record SemanticMap =
  counts :: "CountType list option"
  best_matching_units :: "CellIndexType list"
  vocabulary_size :: IndexType
  dataset_size :: IndexPointerType
  height :: CellIndexType
  width :: CellIndexType
  num_cells :: CellIndexType

definition delete_counts :: "SemanticMap \<Rightarrow> SemanticMap" where
  "delete_counts sm = sm\<lparr>counts := None\<rparr>"

text \<open>
  The loop over the indices of one row in \<^verbatim>\<open>build_counts\<close>; \<open>None\<close> is the
  \<^verbatim>\<open>return\<close> after \<^verbatim>\<open>delete_counts\<close>.
\<close>

fun count_row :: "CellIndexType \<Rightarrow> CellIndexType \<Rightarrow> IndexType list \<Rightarrow> CountType list
                  \<Rightarrow> CountType list option" where
  "count_row n_cells best_matching_unit [] cs = Some cs"
| "count_row n_cells best_matching_unit (vocab_index # rest) cs =
     (let k = (n_cells * vocab_index + best_matching_unit) mod 2 ^ 32
      in if cs ! k \<ge> MAX_COUNT - 1
         then None
         else count_row n_cells best_matching_unit rest (cs[k := cs ! k + 1]))"

text \<open>The loop over the rows.\<close>

fun count_rows :: "SemanticMap \<Rightarrow> BinarySparseMatrix \<Rightarrow> nat list \<Rightarrow> CountType list
                   \<Rightarrow> CountType list option" where
  "count_rows sm data [] cs = Some cs"
| "count_rows sm data (row # rows) cs =
     (case count_row (SemanticMap.num_cells sm) (SemanticMap.best_matching_units sm ! row)
             (take (num_indices_in_row data row) (indices_in_row data row)) cs of
        None \<Rightarrow> None
      | Some cs' \<Rightarrow> count_rows sm data rows cs')"

definition build_counts :: "SemanticMap \<Rightarrow> BinarySparseMatrix \<Rightarrow> SemanticMap" where
  "build_counts sm data =
     (let n = (SemanticMap.num_cells sm * vocabulary_size sm) mod 2 ^ 32;
          cs0 = (case counts sm of
                   None \<Rightarrow> replicate n 0
                 | Some old \<Rightarrow> replicate n 0 @ drop n old)
      in case count_rows sm data [0..<num_rows data] cs0 of
           None \<Rightarrow> delete_counts sm
         | Some cs \<Rightarrow> sm\<lparr>counts := Some cs\<rparr>)"


section \<open>Definitions that follow the specification\<close>

text \<open>
  Cell \<open>c\<close>'s prototype vector: the codebook is row-major over (cell, dimension), as
  \<^verbatim>\<open>find_best_matching_units\<close> and \<^verbatim>\<open>apply_batch_som_update\<close> address it.
\<close>

definition prototype :: "Codebook \<Rightarrow> CellIndexType \<Rightarrow> Float list" where
  "prototype cb c = take (input_dim cb) (drop (c * input_dim cb) (array cb))"

text \<open>
  The inner product of the specification: the sum of the prototype over the sparse indices
  of the row that are below the cutoff, each entry multiplied by its weight when the corpus
  has weights.
\<close>

definition inner_product_spec ::
  "Codebook \<Rightarrow> BinarySparseMatrix \<Rightarrow> IndexType \<Rightarrow> nat \<Rightarrow> CellIndexType \<Rightarrow> Float" where
  "inner_product_spec cb data cutoff r c =
     (\<Sum>k\<leftarrow>[0..<num_indices_in_row data r].
        let idx = indices_in_row data r ! k
        in if idx < cutoff
           then prototype cb c ! idx
                * (if has_weights data then real (weights_in_row data r ! k) else 1)
           else 0)"

text \<open>
  The surrogate distance of the specification in its corrected form, with the squared norm
  of the whole prototype, and the variant with the squared norm of the prototype below the
  cutoff.
\<close>

definition surrogate_distance_spec ::
  "Codebook \<Rightarrow> BinarySparseMatrix \<Rightarrow> IndexType \<Rightarrow> nat \<Rightarrow> CellIndexType \<Rightarrow> Float" where
  "surrogate_distance_spec cb data train_vocab_cutoff r c =
     (let cutoff = (if train_vocab_cutoff > 0 then train_vocab_cutoff else input_dim cb)
      in (\<Sum>v\<leftarrow>prototype cb c. v * v) - 2 * inner_product_spec cb data cutoff r c
         + real (the (sum_of_squares data) ! r))"

definition surrogate_distance_truncated_spec ::
  "Codebook \<Rightarrow> BinarySparseMatrix \<Rightarrow> IndexType \<Rightarrow> nat \<Rightarrow> CellIndexType \<Rightarrow> Float" where
  "surrogate_distance_truncated_spec cb data train_vocab_cutoff r c =
     (let cutoff = (if train_vocab_cutoff > 0 then train_vocab_cutoff else input_dim cb)
      in (\<Sum>v\<leftarrow>take cutoff (prototype cb c). v * v)
         - 2 * inner_product_spec cb data cutoff r c
         + real (the (sum_of_squares data) ! r))"

text \<open>
  The next best matching unit of the specification: the first cell, among the cells other
  than the best matching unit, with the least surrogate distance.
\<close>

definition next_best_spec ::
  "Codebook \<Rightarrow> BinarySparseMatrix \<Rightarrow> IndexType \<Rightarrow> nat \<Rightarrow> CellIndexType \<Rightarrow> CellIndexType option"
  where
  "next_best_spec cb data train_vocab_cutoff r bmu =
     fold (\<lambda>c best.
        if c = bmu then best
        else case best of
               None \<Rightarrow> Some c
             | Some b \<Rightarrow>
                 if surrogate_distance_spec cb data train_vocab_cutoff r c
                    < surrogate_distance_spec cb data train_vocab_cutoff r b
                 then Some c else best)
       [0..<Codebook.num_cells cb] None"

text \<open>
  The influence of the specification: the lattice distance is taken on the map of height
  \<open>H\<close> and width \<open>W\<close>.
\<close>

definition influence_spec :: "Neighbourhood \<Rightarrow> CellIndexType \<Rightarrow> CellIndexType \<Rightarrow> Float" where
  "influence_spec nb source_cell target_cell =
     (let d = Neighbourhood.distance nb
                (int (source_cell div Neighbourhood.width nb))
                (int (source_cell mod Neighbourhood.width nb))
                (int (target_cell div Neighbourhood.width nb))
                (int (target_cell mod Neighbourhood.width nb))
                (int (Neighbourhood.height nb)) (int (Neighbourhood.width nb));
          r = values nb ! target_cell
      in if real d < r
         then (1 - sqrt (exp 1) * exp (- (real d)\<^sup>2 / (2 * r\<^sup>2))) / (r * (1 - sqrt (exp 1)))
         else 0)"


text \<open>The lattice distance between two cells of the map of a neighbourhood.\<close>

definition lattice_distance :: "Neighbourhood \<Rightarrow> CellIndexType \<Rightarrow> CellIndexType \<Rightarrow> CellIndexType" where
  "lattice_distance nb c1 c2 =
     Neighbourhood.distance nb
       (int (c1 div Neighbourhood.width nb)) (int (c1 mod Neighbourhood.width nb))
       (int (c2 div Neighbourhood.width nb)) (int (c2 mod Neighbourhood.width nb))
       (int (Neighbourhood.height nb)) (int (Neighbourhood.width nb))"

text \<open>
  A sequence of calls of \<^verbatim>\<open>Neighbourhood::update\<close>, each with its own arrays, number of
  rows and \<^verbatim>\<open>respect_lower_bound\<close>.
\<close>

definition updates ::
  "Neighbourhood \<Rightarrow> (CellIndexType list \<times> CellIndexType list \<times> IndexPointerType \<times> bool) list
   \<Rightarrow> Neighbourhood" where
  "updates nb calls =
     fold (\<lambda>(bmus, next_bmus, n_rows, respect_lower_bound) nb'.
             fst (update nb' bmus next_bmus n_rows respect_lower_bound)) calls nb"


text \<open>The cells that are no row's best matching unit, in index order.\<close>

definition unused_cells :: "Codebook \<Rightarrow> CellIndexType list \<Rightarrow> CellIndexType list" where
  "unused_cells cb bmus = filter (\<lambda>c. c \<notin> set bmus) [0..<Codebook.num_cells cb]"


text \<open>The sparse indices of a row of the corpus.\<close>

definition row_indices :: "BinarySparseMatrix \<Rightarrow> nat \<Rightarrow> IndexType list" where
  "row_indices data row = take (num_indices_in_row data row) (indices_in_row data row)"

text \<open>
  The number of occurrences of the vocabulary index \<open>v\<close> in the rows whose best matching
  unit is the cell \<open>c\<close>: the number of increments of \<^verbatim>\<open>counts[num_cells * v + c]\<close> that the
  specification asks for.
\<close>

definition association_count ::
  "BinarySparseMatrix \<Rightarrow> CellIndexType list \<Rightarrow> IndexType \<Rightarrow> CellIndexType \<Rightarrow> nat" where
  "association_count data bmus v c =
     (\<Sum>row\<leftarrow>[0..<num_rows data]. if bmus ! row = c then count_list (row_indices data row) v else 0)"


text \<open>
  The denominator and the numerator buffer that \<^verbatim>\<open>apply_batch_som_update\<close> holds for a
  target cell after its loop over the rows.
\<close>

definition batch_sums ::
  "BinarySparseMatrix \<Rightarrow> Neighbourhood \<Rightarrow> CellIndexType list \<Rightarrow> IndexType \<Rightarrow> IndexType
   \<Rightarrow> CellIndexType \<Rightarrow> Float \<times> Float list" where
  "batch_sums data nb bmus effective_input_dim n_dim cell_index =
     fold (batch_row data nb bmus effective_input_dim cell_index)
          [0..<num_rows data] (0, replicate n_dim 0)"


section \<open>Example inputs\<close>

text \<open>A corpus without weights, of one row that holds the index 0, over two columns.\<close>

definition corpus_one_row :: BinarySparseMatrix where
  "corpus_one_row = init_sum_of_squares
     \<lparr>indices = [0], index_pointers = [0, 1], weights = [], num_rows = 1, num_cols = 2,
      num_non_zero = 1, sum_of_squares = None, has_weights = False\<rparr>"

text \<open>A codebook of two cells with the prototypes \<open>(1/2, 1)\<close> and \<open>(0, 1)\<close>.\<close>

definition codebook_two_cells :: Codebook where
  "codebook_two_cells =
     \<lparr>Codebook.width = 2, height = 1, input_dim = 2, num_cells = 2, size' = 4,
      global_topology = PLANE, local_topology = RECT, distance = dist_rect_plane,
      array = [1 / 2, 1, 0, 1]\<rparr>"

text \<open>A codebook of three cells with the prototypes \<open>(1, 0)\<close>, \<open>(0, 0)\<close> and \<open>(1/2, 0)\<close>.\<close>

definition codebook_three_cells :: Codebook where
  "codebook_three_cells =
     \<lparr>Codebook.width = 3, height = 1, input_dim = 2, num_cells = 3, size' = 6,
      global_topology = PLANE, local_topology = RECT, distance = dist_rect_plane,
      array = [1, 0, 0, 0, 1 / 2, 0]\<rparr>"

text \<open>
  The neighbourhood that \<^verbatim>\<open>Neighbourhood(2, 6, TORUS, CIRC, 0.95, 2)\<close> constructs: a map
  of height 2 and width 6.
\<close>

definition neighbourhood_2x6 :: Neighbourhood where
  "neighbourhood_2x6 =
     \<lparr>Neighbourhood.height = 2, width = 6, num_cells = 12, distance = dist_circle_torus,
      update_exponent = 95 / 100, initial_radius = 2, radius_min = 2, radius_max = 2,
      values = replicate 12 2\<rparr>"


text \<open>
  A semantic map of two cells over a vocabulary of two indices, with the best matching unit
  1 for the single row, before its counts are built.
\<close>

definition semantic_map_two_cells :: SemanticMap where
  "semantic_map_two_cells =
     \<lparr>counts = None, best_matching_units = [1], vocabulary_size = 2, dataset_size = 1,
      height = 1, width = 2, num_cells = 2\<rparr>"


text \<open>
  A neighbourhood on the plane of height 1 and width 2 in which both cells have the
  radius 1.
\<close>

definition neighbourhood_1x2 :: Neighbourhood where
  "neighbourhood_1x2 =
     \<lparr>Neighbourhood.height = 1, width = 2, num_cells = 2, distance = dist_rect_plane,
      update_exponent = 95 / 100, initial_radius = 1, radius_min = 1, radius_max = 1,
      values = [1, 1]\<rparr>"


text \<open>
  A corpus with weights of two rows over two columns: the row 0 holds the index 1 with
  the weight 7, the row 1 holds the index 0 with the weight 3.
\<close>

definition corpus_weighted :: BinarySparseMatrix where
  "corpus_weighted = init_sum_of_squares
     \<lparr>indices = [1, 0], index_pointers = [0, 1, 2], weights = [7, 3], num_rows = 2,
      num_cols = 2, num_non_zero = 2, sum_of_squares = None, has_weights = True\<rparr>"


text \<open>
  A map of three cells over a vocabulary of 1431655766 indices, so that the count tensor
  has \<open>3 * 1431655766 = 2^32 + 2\<close> cells, and a corpus of two rows over that vocabulary:
  the row 0 holds the index 0 and has the best matching unit 0, the row 1 holds the index
  1431655765 and has the best matching unit 1.
\<close>

definition corpus_wide :: BinarySparseMatrix where
  "corpus_wide =
     \<lparr>indices = [0, 1431655765], index_pointers = [0, 1, 2], weights = [], num_rows = 2,
      num_cols = 1431655766, num_non_zero = 2, sum_of_squares = None, has_weights = False\<rparr>"

definition semantic_map_wide :: SemanticMap where
  "semantic_map_wide =
     \<lparr>counts = None, best_matching_units = [0, 1], vocabulary_size = 1431655766,
      dataset_size = 2, height = 1, width = 3, num_cells = 3\<rparr>"


section \<open>Properties\<close>

subsection \<open>Topology\<close>

text \<open>
  C8 (the six distance functions are metrics on their lattice). The hexagonal distance on
  the torus violates the triangle inequality on the map of height 4 and width 4: from
  the cell \<open>(0, 3)\<close> to the cell \<open>(3, 0)\<close> the distance is 3, while both are at distance 1
  from the cell \<open>(0, 0)\<close>.
\<close>

theorem dist_hexa_torus_triangle_violated:
  "dist_hexa_torus 0 3 3 0 4 4 = 3 \<and> dist_hexa_torus 0 3 0 0 4 4 = 1
   \<and> dist_hexa_torus 0 0 3 0 4 4 = 1
   \<and> \<not> dist_hexa_torus 0 3 3 0 4 4 \<le> dist_hexa_torus 0 3 0 0 4 4 + dist_hexa_torus 0 0 3 0 4 4"
  by code_simp

text \<open>
  At a coordinate difference of 46341 the square overflows the \<^verbatim>\<open>int\<close>, and the
  circular distance on the plane is 0.
\<close>

lemma dist_circle_plane_overflow:
  "s32 (squared 46341) = - 2147479015 \<and> dist_circle_plane 0 0 0 46341 1 65535 = 0"
  by code_simp

subsection \<open>Best matching units\<close>

lemmas example_evals =
  corpus_one_row_def codebook_two_cells_def codebook_three_cells_def init_sum_of_squares_def
  num_indices_in_row_def indices_in_row_def weights_in_row_def dual_distance_def
  vec_squared_def squared_def product_def surrogate_distance_spec_def
  surrogate_distance_truncated_spec_def inner_product_spec_def prototype_def
  find_best_and_next_best_matching_units_def find_best_and_next_row_def
  MAX_REAL_DISTANCE_def next_best_spec_def upt_rec

text \<open>
  C1 (the search computes the surrogate distance to cell \<open>c\<close>'s prototype, for every
  cutoff). With two cells over two dimensions and the cutoff 1, the dual search reads the
  vector of cell 1 at the offset \<open>1 * cutoff\<close> of the array, which is the second
  entry of cell 0's prototype. For the row \<open>{0}\<close> it computes the distance 0 to cell 1, where
  the specification gives 2 (or 1 with the squared norm below the cutoff), and returns
  cell 1 as the best matching unit, where cell 0 is nearest.
\<close>

theorem dual_search_cutoff_wrong_prototype:
  "dual_distance corpus_one_row 1 (drop (1 * 1) (array codebook_two_cells))
     (vec_squared (drop (1 * 1) (array codebook_two_cells)) 1) 0 = 0
   \<and> surrogate_distance_spec codebook_two_cells corpus_one_row 1 0 1 = 2
   \<and> surrogate_distance_truncated_spec codebook_two_cells corpus_one_row 1 0 1 = 1
   \<and> surrogate_distance_spec codebook_two_cells corpus_one_row 1 0 0 = 5 / 4
   \<and> surrogate_distance_truncated_spec codebook_two_cells corpus_one_row 1 0 0 = 1 / 4
   \<and> find_best_and_next_best_matching_units codebook_two_cells corpus_one_row 1
       = \<lparr>bmu_arrays.best_matching_units = [1], distances = [0],
          next_best_matching_units = [0], next_distances = [1 / 4]\<rparr>"
  by (simp add: example_evals)

text \<open>
  C2 (the next best matching unit is the nearest cell other than the best matching unit).
  With three cells at the distances 0, 1 and 1/4 from the row, the dual search returns
  cell 0 as the best and as the next best matching unit, with the next distance still at
  its initial value; the nearest cell other than cell 0 is cell 2.
\<close>

theorem dual_search_next_best_is_not_argmin:
  "find_best_and_next_best_matching_units codebook_three_cells corpus_one_row 0
     = \<lparr>bmu_arrays.best_matching_units = [0], distances = [0],
        next_best_matching_units = [0], next_distances = [MAX_REAL_DISTANCE]\<rparr>
   \<and> surrogate_distance_spec codebook_three_cells corpus_one_row 0 0 0 = 0
   \<and> surrogate_distance_spec codebook_three_cells corpus_one_row 0 0 1 = 1
   \<and> surrogate_distance_spec codebook_three_cells corpus_one_row 0 0 2 = 1 / 4
   \<and> next_best_spec codebook_three_cells corpus_one_row 0 0 0 = Some 2"
  by (simp add: example_evals)

text \<open>
  \<^verbatim>\<open>product_with_weights\<close> reads the weight at the column index, counted from the
  start of the row, where the weight of the entry is at the position of the entry: for the
  row 0 of the weighted corpus it multiplies by 3, the weight of the row 1, where the
  inner product of the specification multiplies by 7.
\<close>

lemma product_with_weights_reads_weight_by_column:
  "indices_in_row corpus_weighted 0 = [1, 0]
   \<and> num_indices_in_row corpus_weighted 0 = 1
   \<and> weights_in_row corpus_weighted 0 = [7, 3]
   \<and> product_with_weights (indices_in_row corpus_weighted 0)
         (num_indices_in_row corpus_weighted 0) (prototype codebook_two_cells 0)
         (weights_in_row corpus_weighted 0) 2 = 3
   \<and> inner_product_spec codebook_two_cells corpus_weighted 2 0 0 = 7"
  by (simp add: corpus_weighted_def init_sum_of_squares_def indices_in_row_def
      num_indices_in_row_def weights_in_row_def product_with_weights_def prototype_def
      codebook_two_cells_def inner_product_spec_def upt_rec)

subsection \<open>Neighbourhood\<close>

text \<open>
  C4 (the influence uses the lattice distance on the map of height \<open>H\<close> and width \<open>W\<close>).
  \<^verbatim>\<open>influence\<close> passes the width where the distance function takes the height, and the
  height where it takes the width. On the torus of height 2 and width 6 with radius 2, the
  cells 0 and 2 of the first row are at the lattice distance 2, so the influence of the
  specification is 0; the code computes the distance 0 and the influence \<open>1/2\<close>.
\<close>

theorem influence_swaps_height_and_width:
  "Neighbourhood_new 2 6 TORUS CIRC (95 / 100) 2 = Inr neighbourhood_2x6
   \<and> dist_circle_torus 0 0 0 2 2 6 = 2
   \<and> dist_circle_torus 0 0 0 2 6 2 = 0
   \<and> influence neighbourhood_2x6 0 2 = 1 / 2
   \<and> influence_spec neighbourhood_2x6 0 2 = 0"
proof -
  have d_hw: "dist_circle_torus 0 0 0 2 2 6 = 2" by code_simp
  have d_wh: "dist_circle_torus 0 0 0 2 6 2 = 0" by code_simp
  have new: "Neighbourhood_new 2 6 TORUS CIRC (95 / 100) 2 = Inr neighbourhood_2x6"
    by (simp add: Neighbourhood_new_def neighbourhood_2x6_def u16_def)
  have code: "influence neighbourhood_2x6 0 2 = 1 / 2"
    by (simp add: influence_def neighbourhood_2x6_def d_wh squared_def u16_def SQRT_E_def)
  have spec: "influence_spec neighbourhood_2x6 0 2 = 0"
    by (simp add: influence_spec_def neighbourhood_2x6_def d_hw)
  from new d_hw d_wh code spec show ?thesis by simp
qed

text \<open>
  The asserts of \<^verbatim>\<open>dist_circle_torus\<close> hold in the call that \<^verbatim>\<open>influence\<close> makes for the
  cells 0 and 2 of the torus of height 2 and width 6, and in the call with the height and
  the width in their order. In the call that \<^verbatim>\<open>influence\<close> makes for the source cell 5,
  in the column 5, the assert on the column fails against the height 2 that is passed as
  the width.
\<close>

lemma dist_circle_torus_asserts_examples:
  "dist_circle_torus_asserts 0 0 6 2 \<and> dist_circle_torus_asserts 0 0 2 6
   \<and> \<not> dist_circle_torus_asserts 0 5 6 2 \<and> dist_circle_torus_asserts 0 5 2 6"
  by (simp add: dist_circle_torus_asserts_def)

subsection \<open>Topographic error\<close>

lemma discontinuities_fold:
  "fold (\<lambda>row discontinuities. if P row then discontinuities @ [mk row] else discontinuities) rows acc
   = acc @ map mk (filter P rows)"
  by (induction rows arbitrary: acc) simp_all

lemma length_topographic_discontinuities:
  "length (topographic_discontinuities nb bmus nexts n)
   = card {row. row < n \<and> 1 < lattice_distance nb (bmus ! row) (nexts ! row)}"
proof -
  let ?P = "\<lambda>row. 1 < lattice_distance nb (bmus ! row) (nexts ! row)"
  let ?mk = "\<lambda>row. \<lparr>cell1 = bmus ! row, cell2 = nexts ! row,
                      distance = lattice_distance nb (bmus ! row) (nexts ! row)\<rparr>"
  have "topographic_discontinuities nb bmus nexts n
        = fold (\<lambda>row ds. if ?P row then ds @ [?mk row] else ds) [0..<n] []"
    unfolding topographic_discontinuities_def lattice_distance_def Let_def by (rule refl)
  then have "length (topographic_discontinuities nb bmus nexts n) = length (filter ?P [0..<n])"
    by (simp add: discontinuities_fold)
  also have "\<dots> = card {i. i < length [0..<n] \<and> ?P ([0..<n] ! i)}"
    by (rule length_filter_conv_card)
  also have "{i. i < length [0..<n] \<and> ?P ([0..<n] ! i)} = {row. row < n \<and> ?P row}"
    by auto
  finally show ?thesis .
qed

text \<open>
  C3 (topographic error). Over \<open>N > 0\<close> rows, \<^verbatim>\<open>Neighbourhood::update\<close> returns
  \<open>(k + 1) / N\<close>, where \<open>k\<close> is the number of rows whose best and next best matching
  units are more than one lattice step apart; when no row is, it returns \<open>1 / N\<close>.
\<close>

theorem topographic_error_value:
  assumes "0 < n_rows"
  shows "snd (update nb bmus nexts n_rows respect)
           = (real (card {row. row < n_rows \<and> 1 < lattice_distance nb (bmus ! row) (nexts ! row)}) + 1)
             / real n_rows
         \<and> ((\<forall>row<n_rows. lattice_distance nb (bmus ! row) (nexts ! row) \<le> 1)
              \<longrightarrow> snd (update nb bmus nexts n_rows respect) = 1 / real n_rows)"
proof -
  let ?S = "{row. row < n_rows \<and> 1 < lattice_distance nb (bmus ! row) (nexts ! row)}"
  have val: "snd (update nb bmus nexts n_rows respect) = (real (card ?S) + 1) / real n_rows"
    by (simp add: update_def Let_def length_topographic_discontinuities)
  have "?S = {}" if "\<forall>row<n_rows. lattice_distance nb (bmus ! row) (nexts ! row) \<le> 1"
    using that by (auto simp: not_less [symmetric])
  with val show ?thesis by auto
qed

lemma ld1: "lattice_distance neighbourhood_2x6 0 1 = 1" 
  by (simp add: lattice_distance_def neighbourhood_2x6_def) code_simp
lemma ld2: "lattice_distance neighbourhood_2x6 1 2 = 1" 
  by (simp add: lattice_distance_def neighbourhood_2x6_def) code_simp

theorem topographic_error_value_witness:
  "(0::nat) < 2
   \<and> lattice_distance neighbourhood_2x6 ([0, 1] ! 0) ([1, 2] ! 0) \<le> 1
   \<and> lattice_distance neighbourhood_2x6 ([0, 1] ! 1) ([1, 2] ! 1) \<le> 1
   \<and> snd (update neighbourhood_2x6 [0, 1] [1, 2] 2 True) = 1 / 2"
proof -
  have h: "\<forall>row<2. lattice_distance neighbourhood_2x6 ([0, 1] ! row) ([1, 2] ! row) \<le> 1"
  proof (intro allI impI)
    fix row :: nat
    assume "row < 2"
    then consider "row = 0" | "row = 1" by linarith
    then show "lattice_distance neighbourhood_2x6 ([0, 1] ! row) ([1, 2] ! row) \<le> 1"
      using ld1 ld2 by cases simp_all
  qed
  have pos: "(0::nat) < 2" by simp
  from topographic_error_value [OF pos, of neighbourhood_2x6 "[0, 1]" "[1, 2]" True] h
  have "snd (update neighbourhood_2x6 [0, 1] [1, 2] 2 True) = 1 / real (2::nat)" by blast
  with pos ld1 ld2 show ?thesis by simp
qed

subsection \<open>Radii\<close>

lemma lower_bound_ge_one:
  "1 \<le> lb \<Longrightarrow> 1 \<le> fold (\<lambda>discontinuity lb. max lb (f discontinuity)) ds (lb::real)"
  by (induction ds arbitrary: lb) simp_all

lemma update_cell_values_ge_one:
  assumes "\<forall>v\<in>set (values nb). 1 \<le> v" and "0 \<le> update_exponent nb"
  shows "\<forall>v\<in>set (values (update_cell ds respect c nb)). 1 \<le> v"
proof -
  let ?lb = "fold (\<lambda>discontinuity lb. max lb (real (radius_from_discontinuity nb c discontinuity))) ds 1"
  let ?new = "if respect then max ?lb (values nb ! c powr update_exponent nb)
              else values nb ! c powr update_exponent nb"
  have vals: "values (update_cell ds respect c nb) = (values nb)[c := ?new]"
    by (simp add: update_cell_def Let_def)
  show ?thesis
  proof (cases "c < length (values nb)")
    case False
    then have "(values nb)[c := ?new] = values nb" by (simp add: list_update_beyond)
    then show ?thesis using assms(1) unfolding vals by simp
  next
    case True
    then have "1 \<le> values nb ! c" using assms(1) by simp
    then have "1 \<le> values nb ! c powr update_exponent nb"
      using assms(2) by (rule ge_one_powr_ge_zero)
    moreover have "1 \<le> ?lb" by (rule lower_bound_ge_one) simp
    ultimately have "1 \<le> ?new" by (simp add: le_max_iff_disj)
    moreover have "set ((values nb)[c := ?new]) \<subseteq> insert ?new (set (values nb))"
      by (rule set_update_subset_insert)
    ultimately show ?thesis
      using assms(1) unfolding vals by blast
  qed
qed

lemma update_cell_exponent: "update_exponent (update_cell ds respect c nb) = update_exponent nb"
  by (simp add: update_cell_def Let_def)

lemma fold_update_cell:
  assumes "\<forall>v\<in>set (values nb). 1 \<le> v" and "0 \<le> update_exponent nb"
  shows "(\<forall>v\<in>set (values (fold (update_cell ds respect) cs nb)). 1 \<le> v)
         \<and> update_exponent (fold (update_cell ds respect) cs nb) = update_exponent nb"
  using assms
proof (induction cs arbitrary: nb)
  case Nil
  then show ?case by simp
next
  case (Cons c cs)
  have "\<forall>v\<in>set (values (update_cell ds respect c nb)). 1 \<le> v"
    using Cons.prems by (rule update_cell_values_ge_one)
  moreover have "0 \<le> update_exponent (update_cell ds respect c nb)"
    using Cons.prems(2) by (simp add: update_cell_exponent)
  ultimately show ?case
    using Cons.IH [of "update_cell ds respect c nb"] by (simp add: update_cell_exponent)
qed

lemma update_values_ge_one:
  assumes "\<forall>v\<in>set (values nb). 1 \<le> v" and "0 \<le> update_exponent nb"
  shows "(\<forall>v\<in>set (values (fst (update nb bmus nexts n respect))). 1 \<le> v)
         \<and> update_exponent (fst (update nb bmus nexts n respect)) = update_exponent nb"
proof -
  let ?nb1 = "nb\<lparr>radius_min := MAX_REAL_DISTANCE, radius_max := 0\<rparr>"
  have "\<forall>v\<in>set (values ?nb1). 1 \<le> v" "0 \<le> update_exponent ?nb1"
    using assms by simp_all
  from fold_update_cell [OF this] show ?thesis
    by (simp add: update_def Let_def)
qed

lemma updates_values_ge_one:
  assumes "\<forall>v\<in>set (values nb). 1 \<le> v" and "0 \<le> update_exponent nb"
  shows "\<forall>v\<in>set (values (updates nb calls)). 1 \<le> v"
  using assms unfolding updates_def
proof (induction calls arbitrary: nb)
  case Nil
  then show ?case by simp
next
  case (Cons call calls)
  obtain bmus nexts n respect where call: "call = (bmus, nexts, n, respect)"
    by (cases call) auto
  let ?nb = "fst (update nb bmus nexts n respect)"
  from update_values_ge_one [OF Cons.prems, of bmus nexts n respect]
  have "\<forall>v\<in>set (values ?nb). 1 \<le> v" and "0 \<le> update_exponent ?nb"
    using Cons.prems(2) by simp_all
  from Cons.IH [OF this] show ?case
    by (simp add: call)
qed

lemma fold_update_cell_length:
  "length (values (fold (update_cell ds respect) cs nb)) = length (values nb)"
  by (induction cs arbitrary: nb) (simp_all add: update_cell_def Let_def)

lemma update_length:
  "length (values (fst (update nb bmus nexts n respect))) = length (values nb)"
  by (simp add: update_def Let_def fold_update_cell_length)

lemma updates_length: "length (values (updates nb calls)) = length (values nb)"
  unfolding updates_def
  by (induction calls arbitrary: nb) (simp_all add: update_length split: prod.splits)

text \<open>
  C5 (radius invariant). A neighbourhood constructed with an initial radius of at least 1
  and an update exponent in \<open>(0, 1]\<close> has, after any sequence of updates, with or without
  the lower bound, a radius of at least 1 in every cell.
\<close>

theorem radius_never_below_one:
  assumes "Neighbourhood_new h w gt lt exponent radius = Inr nb"
    and "1 \<le> radius" and "0 < exponent" and "exponent \<le> 1"
  shows "length (values (updates nb calls)) = Neighbourhood.num_cells nb
         \<and> (\<forall>c<Neighbourhood.num_cells nb. 1 \<le> values (updates nb calls) ! c)"
proof -
  from assms(1) obtain fn where nb: "nb = \<lparr>Neighbourhood.height = h, width = w,
      num_cells = u16 (int h * int w), distance = fn, update_exponent = exponent,
      initial_radius = radius, radius_min = real radius, radius_max = real radius,
      values = replicate (u16 (int h * int w)) (real radius)\<rparr>"
    by (auto simp: Neighbourhood_new_def split: sum.splits)
  have "\<forall>v\<in>set (values nb). 1 \<le> v" using assms(2) by (simp add: nb)
  moreover have "0 \<le> update_exponent nb" using assms(3) by (simp add: nb)
  ultimately have ge: "\<forall>v\<in>set (values (updates nb calls)). 1 \<le> v"
    by (rule updates_values_ge_one)
  have len: "length (values (updates nb calls)) = Neighbourhood.num_cells nb"
    by (simp add: updates_length) (simp add: nb)
  show ?thesis using ge len by simp
qed


theorem radius_never_below_one_witness:
  "Neighbourhood_new 2 6 TORUS CIRC (95 / 100) 2 = Inr neighbourhood_2x6
   \<and> (1::nat) \<le> 2 \<and> (0::real) < 95 / 100 \<and> (95 / 100 :: real) \<le> 1
   \<and> length (values (updates neighbourhood_2x6
                          [([0, 1], [1, 4], 2, True), ([0, 1], [1, 4], 2, False)])) = 12
   \<and> 1 \<le> values (updates neighbourhood_2x6
                      [([0, 1], [1, 4], 2, True), ([0, 1], [1, 4], 2, False)]) ! 0
   \<and> 1 \<le> values (updates neighbourhood_2x6
                      [([0, 1], [1, 4], 2, True), ([0, 1], [1, 4], 2, False)]) ! 11"
proof -
  have new: "Neighbourhood_new 2 6 TORUS CIRC (95 / 100) 2 = Inr neighbourhood_2x6"
    by (simp add: Neighbourhood_new_def neighbourhood_2x6_def u16_def)
  have n: "Neighbourhood.num_cells neighbourhood_2x6 = 12"
    by (simp add: neighbourhood_2x6_def)
  from radius_never_below_one [OF new, of "[([0, 1], [1, 4], 2, True), ([0, 1], [1, 4], 2, False)]"] new
  show ?thesis by (simp add: n)
qed

subsection \<open>Dead cells\<close>

lemma length_filter_upt: "length (filter P [0..<n]) = card {i. i < n \<and> P i}"
proof -
  have "length (filter P [0..<n]) = card {i. i < length [0..<n] \<and> P ([0..<n] ! i)}"
    by (rule length_filter_conv_card)
  also have "{i. i < length [0..<n] \<and> P ([0..<n] ! i)} = {i. i < n \<and> P i}"
    by auto
  finally show ?thesis .
qed

lemma cell_in_use_loop_invariant:
  assumes "length iu = nc" and "\<forall>b\<in>set bs. b < nc" and "u = card {c. c < nc \<and> iu ! c}"
  shows "length (fst (cell_in_use_loop bs nc (iu, u))) = nc
         \<and> snd (cell_in_use_loop bs nc (iu, u))
             = card {c. c < nc \<and> fst (cell_in_use_loop bs nc (iu, u)) ! c}
         \<and> (\<forall>c<nc. fst (cell_in_use_loop bs nc (iu, u)) ! c \<longleftrightarrow> iu ! c \<or> c \<in> set bs)"
  using assms
proof (induction bs arbitrary: iu u)
  case Nil
  then show ?case by simp
next
  case (Cons b bs)
  have fin: "finite {c. c < nc \<and> iu ! c}" by simp
  have sub: "{c. c < nc \<and> iu ! c} \<subseteq> {..<nc}" by auto
  show ?case
  proof (cases "u < nc")
    case False
    have "card {c. c < nc \<and> iu ! c} \<le> card {..<nc}"
      by (rule card_mono [OF _ sub]) simp
    with False Cons.prems(3) have "card {c. c < nc \<and> iu ! c} = card {..<nc}" by simp
    with sub have "{c. c < nc \<and> iu ! c} = {..<nc}"
      by (simp add: card_subset_eq)
    then have all: "\<forall>c<nc. iu ! c" by auto
    from False have "cell_in_use_loop (b # bs) nc (iu, u) = (iu, u)" by simp
    with Cons.prems all show ?thesis by simp
  next
    case True
    have b: "b < nc" using Cons.prems(2) by simp
    show ?thesis
    proof (cases "iu ! b")
      case True
      with \<open>u < nc\<close> have step: "cell_in_use_loop (b # bs) nc (iu, u) = cell_in_use_loop bs nc (iu, u)"
        by simp
      from Cons.IH [OF Cons.prems(1) _ Cons.prems(3)] Cons.prems(2)
      have "length (fst (cell_in_use_loop bs nc (iu, u))) = nc
         \<and> snd (cell_in_use_loop bs nc (iu, u))
             = card {c. c < nc \<and> fst (cell_in_use_loop bs nc (iu, u)) ! c}
         \<and> (\<forall>c<nc. fst (cell_in_use_loop bs nc (iu, u)) ! c \<longleftrightarrow> iu ! c \<or> c \<in> set bs)"
        by simp
      with True show ?thesis unfolding step by auto
    next
      case False
      let ?iu = "iu[b := True]"
      from False \<open>u < nc\<close>
      have step: "cell_in_use_loop (b # bs) nc (iu, u) = cell_in_use_loop bs nc (?iu, u + 1)"
        by simp
      have set_eq: "{c. c < nc \<and> ?iu ! c} = insert b {c. c < nc \<and> iu ! c}"
        using b Cons.prems(1) by (auto simp: nth_list_update)
      have "b \<notin> {c. c < nc \<and> iu ! c}" using False by simp
      then have card_eq: "u + 1 = card {c. c < nc \<and> ?iu ! c}"
        using Cons.prems(3) fin unfolding set_eq by simp
      have len: "length ?iu = nc" using Cons.prems(1) by simp
      from Cons.IH [OF len _ card_eq] Cons.prems(2)
      have "length (fst (cell_in_use_loop bs nc (?iu, u + 1))) = nc
         \<and> snd (cell_in_use_loop bs nc (?iu, u + 1))
             = card {c. c < nc \<and> fst (cell_in_use_loop bs nc (?iu, u + 1)) ! c}
         \<and> (\<forall>c<nc. fst (cell_in_use_loop bs nc (?iu, u + 1)) ! c \<longleftrightarrow> ?iu ! c \<or> c \<in> set bs)"
        by simp
      then show ?thesis
        unfolding step using b Cons.prems(1) by (auto simp: nth_list_update)
    qed
  qed
qed

lemma cell_in_use_loop_initial:
  assumes "\<forall>b\<in>set bs. b < nc"
  shows "length (fst (cell_in_use_loop bs nc (replicate nc False, 0))) = nc"
    and "\<forall>c<nc. fst (cell_in_use_loop bs nc (replicate nc False, 0)) ! c \<longleftrightarrow> c \<in> set bs"
    and "snd (cell_in_use_loop bs nc (replicate nc False, 0)) + length (filter (\<lambda>c. c \<notin> set bs) [0..<nc]) = nc"
proof -
  let ?r = "cell_in_use_loop bs nc (replicate nc False, 0)"
  have "0 = card {c. c < nc \<and> replicate nc False ! c}" by simp
  from cell_in_use_loop_invariant [OF _ assms this]
  have inv: "length (fst ?r) = nc" "snd ?r = card {c. c < nc \<and> fst ?r ! c}"
    "\<forall>c<nc. fst ?r ! c \<longleftrightarrow> replicate nc False ! c \<or> c \<in> set bs"
    by simp_all
  show "length (fst ?r) = nc" by (rule inv(1))
  show iff: "\<forall>c<nc. fst ?r ! c \<longleftrightarrow> c \<in> set bs" using inv(3) by simp
  have "snd ?r = card {c. c < nc \<and> c \<in> set bs}"
    using iff unfolding inv(2) by (intro arg_cong [where f = card]) auto
  also have "\<dots> = length (filter (\<lambda>c. c \<in> set bs) [0..<nc])"
    by (simp only: length_filter_upt)
  finally have "snd ?r = length (filter (\<lambda>c. c \<in> set bs) [0..<nc])" .
  moreover have "length (filter (\<lambda>c. c \<in> set bs) [0..<nc])
                 + length (filter (\<lambda>c. \<not> c \<in> set bs) [0..<nc]) = length [0..<nc]"
    by (rule sum_length_filter_compl)
  ultimately show "snd ?r + length (filter (\<lambda>c. c \<notin> set bs) [0..<nc]) = nc" by simp
qed

lemma worst_matching_inputs_loop_eq:
  "length worst \<le> k
   \<Longrightarrow> worst_matching_inputs_loop rows ds t k worst
       = take k (worst @ filter (\<lambda>row. t \<le> ds ! row) rows)"
  by (induction rows arbitrary: worst) (simp_all add: take_Cons')

lemma assign_loop_done:
  "\<not> i < k \<Longrightarrow> assign_loop cells iu worst k (i, bmus) = (i, bmus)"
  by (cases cells) simp_all

lemma assign_loop_result:
  assumes "distinct worst" and "length worst = k" and "\<forall>r\<in>set worst. r < length bmus"
    and "i + length (filter (\<lambda>c. \<not> iu ! c) cells) = k"
  shows "(\<forall>j<length (filter (\<lambda>c. \<not> iu ! c) cells).
            snd (assign_loop cells iu worst k (i, bmus)) ! (worst ! (i + j))
              = filter (\<lambda>c. \<not> iu ! c) cells ! j)
         \<and> (\<forall>r. r \<notin> set (drop i worst)
               \<longrightarrow> snd (assign_loop cells iu worst k (i, bmus)) ! r = bmus ! r)
         \<and> length (snd (assign_loop cells iu worst k (i, bmus))) = length bmus"
  using assms(3,4)
proof (induction cells arbitrary: i bmus)
  case Nil
  then show ?case by simp
next
  case (Cons cell cells)
  let ?us = "filter (\<lambda>c. \<not> iu ! c) cells"
  show ?case
  proof (cases "iu ! cell")
    case True
    then have step: "snd (assign_loop (cell # cells) iu worst k (i, bmus))
                     = snd (assign_loop cells iu worst k (i, bmus))"
      by (simp add: assign_loop_done)
    from True Cons.prems(2) have "i + length ?us = k" by simp
    from Cons.IH [OF Cons.prems(1) this] True show ?thesis
      unfolding step by simp
  next
    case False
    then have us: "filter (\<lambda>c. \<not> iu ! c) (cell # cells) = cell # ?us" by simp
    with Cons.prems(2) have i: "i < k" and rest: "(i + 1) + length ?us = k" by simp_all
    let ?bmus = "bmus[worst ! i := cell]"
    from False i
    have step: "snd (assign_loop (cell # cells) iu worst k (i, bmus))
                = snd (assign_loop cells iu worst k (i + 1, ?bmus))"
      by simp
    have wi: "worst ! i < length bmus"
      using Cons.prems(1) i assms(2) by (simp add: nth_mem)
    have "\<forall>r\<in>set worst. r < length ?bmus" using Cons.prems(1) by simp
    from Cons.IH [OF this rest]
    have ih1: "\<forall>j<length ?us. snd (assign_loop cells iu worst k (i + 1, ?bmus)) ! (worst ! (i + 1 + j)) = ?us ! j"
      and ih2: "\<forall>r. r \<notin> set (drop (i + 1) worst)
                  \<longrightarrow> snd (assign_loop cells iu worst k (i + 1, ?bmus)) ! r = ?bmus ! r"
      and ih3: "length (snd (assign_loop cells iu worst k (i + 1, ?bmus))) = length ?bmus"
      by simp_all
    have drop_i: "drop i worst = worst ! i # drop (i + 1) worst"
      using i assms(2) by (simp add: Cons_nth_drop_Suc)
    have "distinct (drop i worst)" using assms(1) by (rule distinct_drop)
    then have notin: "worst ! i \<notin> set (drop (i + 1) worst)"
      unfolding drop_i by simp
    have first: "snd (assign_loop cells iu worst k (i + 1, ?bmus)) ! (worst ! i) = cell"
      using ih2 notin wi by simp
    have a: "\<forall>j<length (cell # ?us).
               snd (assign_loop cells iu worst k (i + 1, ?bmus)) ! (worst ! (i + j)) = (cell # ?us) ! j"
    proof (intro allI impI)
      fix j assume j: "j < length (cell # ?us)"
      show "snd (assign_loop cells iu worst k (i + 1, ?bmus)) ! (worst ! (i + j)) = (cell # ?us) ! j"
      proof (cases j)
        case 0
        then show ?thesis using first by simp
      next
        case (Suc j')
        with j have "j' < length ?us" by simp
        with ih1 have "snd (assign_loop cells iu worst k (i + 1, ?bmus)) ! (worst ! (i + 1 + j')) = ?us ! j'"
          by blast
        then show ?thesis using Suc by simp
      qed
    qed
    have b: "\<forall>r. r \<notin> set (drop i worst)
               \<longrightarrow> snd (assign_loop cells iu worst k (i + 1, ?bmus)) ! r = bmus ! r"
    proof (intro allI impI)
      fix r assume "r \<notin> set (drop i worst)"
      then have "r \<noteq> worst ! i" and "r \<notin> set (drop (i + 1) worst)"
        unfolding drop_i by simp_all
      with ih2 show "snd (assign_loop cells iu worst k (i + 1, ?bmus)) ! r = bmus ! r"
        by simp
    qed
    from a b ih3 show ?thesis unfolding step us by simp
  qed
qed

lemma descending_nth:
  fixes xs :: "real list"
  assumes "i \<le> j" and "j < length xs"
  shows "rev (sort xs) ! j \<le> rev (sort xs) ! i"
proof -
  have desc: "sorted_wrt (\<lambda>x y. y \<le> x) (rev (sort xs))"
    by (simp add: sorted_wrt_rev)
  show ?thesis
  proof (cases "i = j")
    case True
    then show ?thesis by simp
  next
    case False
    with assms have "i < j" and "j < length (rev (sort xs))" by simp_all
    from sorted_wrt_nth_less [OF desc this] show ?thesis .
  qed
qed

lemma count_sorted:
  fixes xs :: "real list"
  shows "length (filter P (rev (sort xs))) = length (filter P xs)"
proof -
  have "filter P (rev (sort xs)) = rev (sort (filter P xs))"
    by (simp only: rev_filter [symmetric] filter_sort)
  then show ?thesis by simp
qed

lemma threshold_at_least:
  fixes xs :: "real list"
  assumes "0 < k" and "k \<le> length xs"
  shows "k \<le> length (filter (\<lambda>x. rev (sort xs) ! (k - 1) \<le> x) xs)"
proof -
  let ?s = "rev (sort xs)"
  let ?P = "\<lambda>x. ?s ! (k - 1) \<le> x"
  have "\<forall>x\<in>set (take k ?s). ?P x"
  proof
    fix x assume "x \<in> set (take k ?s)"
    then obtain i where "i < k" and "x = ?s ! i"
      using assms(2) by (auto simp: in_set_conv_nth)
    then show "?P x" using assms descending_nth [of i "k - 1" xs] by simp
  qed
  then have "filter ?P (take k ?s) = take k ?s" by simp
  moreover have "length (filter ?P ?s) = length (filter ?P (take k ?s)) + length (filter ?P (drop k ?s))"
    by (metis append_take_drop_id filter_append length_append)
  ultimately have "k \<le> length (filter ?P ?s)" using assms(2) by simp
  then show ?thesis by (simp only: count_sorted)
qed

lemma threshold_less_than:
  fixes xs :: "real list"
  assumes "0 < k" and "k \<le> length xs"
  shows "length (filter (\<lambda>x. rev (sort xs) ! (k - 1) < x) xs) < k"
proof -
  let ?s = "rev (sort xs)"
  let ?P = "\<lambda>x. ?s ! (k - 1) < x"
  have "\<forall>x\<in>set (drop (k - 1) ?s). \<not> ?P x"
  proof
    fix x assume "x \<in> set (drop (k - 1) ?s)"
    then obtain i where i: "i < length ?s - (k - 1)" and x: "x = ?s ! (k - 1 + i)"
      by (auto simp: in_set_conv_nth)
    from i have "k - 1 + i < length xs" by simp
    from descending_nth [OF _ this, of "k - 1"] have "?s ! (k - 1 + i) \<le> ?s ! (k - 1)" by simp
    then show "\<not> ?P x" unfolding x by (simp add: not_less)
  qed
  then have "filter ?P (drop (k - 1) ?s) = []" by simp
  moreover have "length (filter ?P ?s)
                 = length (filter ?P (take (k - 1) ?s)) + length (filter ?P (drop (k - 1) ?s))"
    by (metis append_take_drop_id filter_append length_append)
  moreover have "length (filter ?P (take (k - 1) ?s)) \<le> k - 1"
    by (rule order_trans [OF length_filter_le]) simp
  ultimately have "length (filter ?P ?s) < k" using assms(1) by simp
  then show ?thesis by (simp only: count_sorted)
qed

lemma assign_dead_cells_unused_count:
  assumes "length bmus = n_rows" and "\<forall>b\<in>set bmus. b < Codebook.num_cells cb"
    and "Codebook.num_cells cb < 65536"
  shows "u16 (int (Codebook.num_cells cb)
              - int (snd (cell_in_use_loop (take n_rows bmus) (Codebook.num_cells cb)
                            (replicate (Codebook.num_cells cb) False, 0))))
         = length (unused_cells cb bmus)"
proof -
  let ?nc = "Codebook.num_cells cb"
  let ?st = "cell_in_use_loop bmus ?nc (replicate ?nc False, 0)"
  have "snd ?st + length (unused_cells cb bmus) = ?nc"
    unfolding unused_cells_def by (rule cell_in_use_loop_initial(3) [OF assms(2)])
  then have "int ?nc - int (snd ?st) = int (length (unused_cells cb bmus))"
    and "length (unused_cells cb bmus) < 65536"
    using assms(3) by linarith+
  then show ?thesis using assms(1) by (simp add: u16_def)
qed

lemma assign_dead_cells_nothing_to_do:
  assumes "length bmus = n_rows" and "\<forall>b\<in>set bmus. b < Codebook.num_cells cb"
    and "Codebook.num_cells cb < 65536"
    and "length (unused_cells cb bmus) = 0 \<or> n_rows < length (unused_cells cb bmus)"
  shows "assign_dead_cells cb bmus ds n_rows = (bmus, ds, 0)"
  using assms(4)
  by (simp add: assign_dead_cells_def Let_def assign_dead_cells_unused_count [OF assms(1-3)])

lemma assign_dead_cells_assigns:
  assumes len_bmus: "length bmus = n_rows" and len_ds: "length ds = n_rows"
    and range: "\<forall>b\<in>set bmus. b < Codebook.num_cells cb"
    and nc: "Codebook.num_cells cb < 65536"
    and k_pos: "0 < length (unused_cells cb bmus)"
    and k_le: "length (unused_cells cb bmus) \<le> n_rows"
  defines "t \<equiv> rev (sort ds) ! (length (unused_cells cb bmus) - 1)"
  defines "rows \<equiv> take (length (unused_cells cb bmus)) (filter (\<lambda>r. t \<le> ds ! r) [0..<n_rows])"
  shows "length (unused_cells cb bmus) \<le> card {r. r < n_rows \<and> t \<le> ds ! r}"
    and "card {r. r < n_rows \<and> t < ds ! r} < length (unused_cells cb bmus)"
    and "length rows = length (unused_cells cb bmus)"
    and "sorted_wrt (<) rows"
    and "\<forall>j<length rows. rows ! j < n_rows \<and> t \<le> ds ! (rows ! j)
           \<and> fst (assign_dead_cells cb bmus ds n_rows) ! (rows ! j) = unused_cells cb bmus ! j"
    and "\<forall>r<n_rows. r \<notin> set rows \<longrightarrow> fst (assign_dead_cells cb bmus ds n_rows) ! r = bmus ! r"
    and "snd (snd (assign_dead_cells cb bmus ds n_rows))
         = real (length (unused_cells cb bmus)) / real (Codebook.num_cells cb)"
proof -
  let ?nc = "Codebook.num_cells cb"
  let ?k = "length (unused_cells cb bmus)"
  let ?st = "cell_in_use_loop bmus ?nc (replicate ?nc False, 0)"
  let ?iu = "fst ?st"
  have take_bmus: "take n_rows bmus = bmus" and take_ds: "take n_rows ds = ds"
    using len_bmus len_ds by simp_all
  have unused: "u16 (int ?nc - int (snd ?st)) = ?k"
    using assign_dead_cells_unused_count [OF len_bmus range nc] by (simp add: take_bmus)
  have thr: "largest_distances ds n_rows ?k ! (?k - 1) = t"
    using k_pos by (simp add: largest_distances_def take_ds t_def)
  have worst: "worst_matching_inputs_loop [0..<n_rows] ds t ?k [] = rows"
    by (simp add: worst_matching_inputs_loop_eq rows_def)
  have count_ge: "card {r. r < n_rows \<and> t \<le> ds ! r} = length (filter (\<lambda>x. t \<le> x) ds)"
    by (simp add: length_filter_conv_card len_ds)
  have count_gt: "card {r. r < n_rows \<and> t < ds ! r} = length (filter (\<lambda>x. t < x) ds)"
    by (simp add: length_filter_conv_card len_ds)
  have "?k \<le> length (filter (\<lambda>x. t \<le> x) ds)"
    unfolding t_def using k_pos k_le len_ds by (intro threshold_at_least) simp_all
  then show ge: "?k \<le> card {r. r < n_rows \<and> t \<le> ds ! r}"
    by (simp only: count_ge)
  have "length (filter (\<lambda>x. t < x) ds) < ?k"
    unfolding t_def using k_pos k_le len_ds by (intro threshold_less_than) simp_all
  then show "card {r. r < n_rows \<and> t < ds ! r} < ?k"
    by (simp only: count_gt)
  have "?k \<le> length (filter (\<lambda>r. t \<le> ds ! r) [0..<n_rows])"
    using ge by (simp only: length_filter_upt)
  then show len_rows: "length rows = ?k" by (simp add: rows_def)
  have sorted_filter: "sorted_wrt (<) (filter (\<lambda>r. t \<le> ds ! r) [0..<n_rows])"
    by (rule sorted_wrt_filter) (simp add: sorted_wrt_upt [simplified] strict_sorted_iff)
  show sorted_rows: "sorted_wrt (<) rows"
    unfolding rows_def by (rule sorted_wrt_take [OF sorted_filter])
  have set_rows: "set rows \<subseteq> {r. r < n_rows \<and> t \<le> ds ! r}"
    unfolding rows_def by (auto dest: in_set_takeD)
  have distinct_rows: "distinct rows"
    using sorted_rows by (simp add: strict_sorted_iff)
  have rows_bound: "\<forall>r\<in>set rows. r < length bmus"
    using set_rows len_bmus by auto
  have us: "filter (\<lambda>c. \<not> ?iu ! c) [0..<?nc] = unused_cells cb bmus"
    unfolding unused_cells_def
    using cell_in_use_loop_initial(2) [OF range] by (intro filter_cong) simp_all
  have "0 + length (filter (\<lambda>c. \<not> ?iu ! c) [0..<?nc]) = length rows"
    by (simp add: us len_rows)
  from assign_loop_result [OF distinct_rows refl rows_bound this]
  have assigned: "\<forall>j<?k. snd (assign_loop [0..<?nc] ?iu rows (length rows) (0, bmus)) ! (rows ! j)
                     = unused_cells cb bmus ! j"
    and frame: "\<forall>r. r \<notin> set rows
                  \<longrightarrow> snd (assign_loop [0..<?nc] ?iu rows (length rows) (0, bmus)) ! r = bmus ! r"
    by (simp_all add: us)
  have result: "assign_dead_cells cb bmus ds n_rows
                = (snd (assign_loop [0..<?nc] ?iu rows (length rows) (0, bmus)), ds,
                   real ?k / real ?nc)"
    using k_pos k_le
    by (simp add: assign_dead_cells_def Let_def take_bmus unused thr [unfolded One_nat_def]
          worst len_rows)
  show "\<forall>j<length rows. rows ! j < n_rows \<and> t \<le> ds ! (rows ! j)
          \<and> fst (assign_dead_cells cb bmus ds n_rows) ! (rows ! j) = unused_cells cb bmus ! j"
  proof (intro allI impI)
    fix j assume j: "j < length rows"
    then have "rows ! j \<in> set rows" by (rule nth_mem)
    with set_rows have "rows ! j < n_rows \<and> t \<le> ds ! (rows ! j)" by blast
    moreover from j assigned
    have "fst (assign_dead_cells cb bmus ds n_rows) ! (rows ! j) = unused_cells cb bmus ! j"
      by (simp add: result len_rows)
    ultimately show "rows ! j < n_rows \<and> t \<le> ds ! (rows ! j)
          \<and> fst (assign_dead_cells cb bmus ds n_rows) ! (rows ! j) = unused_cells cb bmus ! j"
      by simp
  qed
  show "\<forall>r<n_rows. r \<notin> set rows \<longrightarrow> fst (assign_dead_cells cb bmus ds n_rows) ! r = bmus ! r"
    using frame by (simp add: result)
  show "snd (snd (assign_dead_cells cb bmus ds n_rows)) = real ?k / real ?nc"
    by (simp add: result)
qed

text \<open>
  C7 (dead-cell reassignment). Let \<open>k\<close> be the number of unused cells. If \<open>k\<close> is 0 or
  greater than the number of rows, \<^verbatim>\<open>assign_dead_cells\<close> leaves the array unchanged
  and returns 0. Otherwise there are a threshold \<open>t\<close>, the \<open>k\<close>-th largest distance (at
  least \<open>k\<close> rows have a distance of at least \<open>t\<close>, fewer than \<open>k\<close> rows a distance above
  \<open>t\<close>), and \<open>k\<close> rows in ascending order, each with a distance of at least \<open>t\<close>, such that
  the \<open>j\<close>-th unused cell in index order is the best matching unit of the \<open>j\<close>-th of these
  rows after the call; the other rows keep their best matching unit, and the function
  returns \<open>k / num_cells\<close>.
\<close>

theorem assign_dead_cells_reassigns:
  assumes "length bmus = n_rows" and "length ds = n_rows"
    and "\<forall>b\<in>set bmus. b < Codebook.num_cells cb" and "Codebook.num_cells cb < 65536"
  shows "(length (unused_cells cb bmus) = 0 \<or> n_rows < length (unused_cells cb bmus)
            \<longrightarrow> assign_dead_cells cb bmus ds n_rows = (bmus, ds, 0))
         \<and> (0 < length (unused_cells cb bmus) \<and> length (unused_cells cb bmus) \<le> n_rows
            \<longrightarrow> (\<exists>t rows.
                   length (unused_cells cb bmus) \<le> card {r. r < n_rows \<and> t \<le> ds ! r}
                 \<and> card {r. r < n_rows \<and> t < ds ! r} < length (unused_cells cb bmus)
                 \<and> length rows = length (unused_cells cb bmus)
                 \<and> sorted_wrt (<) rows
                 \<and> (\<forall>j<length rows. rows ! j < n_rows \<and> t \<le> ds ! (rows ! j)
                        \<and> fst (assign_dead_cells cb bmus ds n_rows) ! (rows ! j)
                            = unused_cells cb bmus ! j)
                 \<and> (\<forall>r<n_rows. r \<notin> set rows
                        \<longrightarrow> fst (assign_dead_cells cb bmus ds n_rows) ! r = bmus ! r)
                 \<and> snd (snd (assign_dead_cells cb bmus ds n_rows))
                     = real (length (unused_cells cb bmus)) / real (Codebook.num_cells cb)))"
proof (intro conjI impI)
  assume "length (unused_cells cb bmus) = 0 \<or> n_rows < length (unused_cells cb bmus)"
  with assms show "assign_dead_cells cb bmus ds n_rows = (bmus, ds, 0)"
    by (intro assign_dead_cells_nothing_to_do) simp_all
next
  assume k: "0 < length (unused_cells cb bmus) \<and> length (unused_cells cb bmus) \<le> n_rows"
  then have k_pos: "0 < length (unused_cells cb bmus)"
    and k_le: "length (unused_cells cb bmus) \<le> n_rows" by simp_all
  note facts = assign_dead_cells_assigns [OF assms k_pos k_le]
  show "\<exists>t rows.
          length (unused_cells cb bmus) \<le> card {r. r < n_rows \<and> t \<le> ds ! r}
        \<and> card {r. r < n_rows \<and> t < ds ! r} < length (unused_cells cb bmus)
        \<and> length rows = length (unused_cells cb bmus)
        \<and> sorted_wrt (<) rows
        \<and> (\<forall>j<length rows. rows ! j < n_rows \<and> t \<le> ds ! (rows ! j)
               \<and> fst (assign_dead_cells cb bmus ds n_rows) ! (rows ! j)
                   = unused_cells cb bmus ! j)
        \<and> (\<forall>r<n_rows. r \<notin> set rows
               \<longrightarrow> fst (assign_dead_cells cb bmus ds n_rows) ! r = bmus ! r)
        \<and> snd (snd (assign_dead_cells cb bmus ds n_rows))
            = real (length (unused_cells cb bmus)) / real (Codebook.num_cells cb)"
    using facts by blast
qed

theorem assign_dead_cells_reassigns_witness:
  "length [0, 0, 0, 0 :: nat] = 4 \<and> length [3, 5, 5, 9 :: real] = 4
   \<and> list_all (\<lambda>b. b < Codebook.num_cells codebook_three_cells) [0, 0, 0, 0]
   \<and> Codebook.num_cells codebook_three_cells < 65536
   \<and> unused_cells codebook_three_cells [0, 0, 0, 0] = [1, 2]
   \<and> assign_dead_cells codebook_three_cells [0, 0, 0, 0] [3, 5, 5, 9] 4
       = ([0, 1, 2, 0], [3, 5, 5, 9], 2 / 3)
   \<and> (\<exists>(t::real) rows.
          length (unused_cells codebook_three_cells [0, 0, 0, 0])
            \<le> card {r. r < 4 \<and> t \<le> [3, 5, 5, 9] ! r}
        \<and> card {r. r < 4 \<and> t < [3, 5, 5, 9] ! r}
            < length (unused_cells codebook_three_cells [0, 0, 0, 0])
        \<and> length rows = length (unused_cells codebook_three_cells [0, 0, 0, 0])
        \<and> sorted_wrt (<) rows
        \<and> (\<forall>j<length rows. rows ! j < 4 \<and> t \<le> [3, 5, 5, 9] ! (rows ! j)
               \<and> fst (assign_dead_cells codebook_three_cells [0, 0, 0, 0] [3, 5, 5, 9] 4)
                     ! (rows ! j)
                   = unused_cells codebook_three_cells [0, 0, 0, 0] ! j)
        \<and> (\<forall>r<4. r \<notin> set rows
               \<longrightarrow> fst (assign_dead_cells codebook_three_cells [0, 0, 0, 0] [3, 5, 5, 9] 4) ! r
                   = [0, 0, 0, 0] ! r)
        \<and> snd (snd (assign_dead_cells codebook_three_cells [0, 0, 0, 0] [3, 5, 5, 9] 4))
            = real (length (unused_cells codebook_three_cells [0, 0, 0, 0]))
              / real (Codebook.num_cells codebook_three_cells))"
proof -
  have nc: "Codebook.num_cells codebook_three_cells = 3"
    by (simp add: codebook_three_cells_def)
  have h1: "length [0, 0, 0, 0 :: nat] = 4" and h2: "length [3, 5, 5, 9 :: real] = 4"
    and h3: "\<forall>b\<in>set [0, 0, 0, 0]. b < Codebook.num_cells codebook_three_cells"
    and h4: "Codebook.num_cells codebook_three_cells < 65536"
    by (simp_all add: nc)
  have unused: "unused_cells codebook_three_cells [0, 0, 0, 0] = [1, 2]"
    by (simp add: unused_cells_def nc upt_rec)
  have run: "assign_dead_cells codebook_three_cells [0, 0, 0, 0] [3, 5, 5, 9] 4
             = ([0, 1, 2, 0], [3, 5, 5, 9], 2 / 3)"
    by (simp add: assign_dead_cells_def nc u16_def largest_distances_def upt_rec Let_def)
  have k: "0 < length (unused_cells codebook_three_cells [0, 0, 0, 0])
           \<and> length (unused_cells codebook_three_cells [0, 0, 0, 0]) \<le> 4"
    by (simp add: unused)
  note ex = assign_dead_cells_reassigns [OF h1 h2 h3 h4, THEN conjunct2, THEN mp, OF k]
  have h3': "list_all (\<lambda>b. b < Codebook.num_cells codebook_three_cells) [0, 0, 0, 0]"
    by (simp add: nc)
  from h1 h2 h3' h4 unused run ex show ?thesis by (intro conjI)
qed

subsection \<open>Frame of the dead-cell reassignment\<close>

lemma assign_dead_cells_distances:
  "fst (snd (assign_dead_cells cb bmus ds n_rows)) = ds"
  by (simp add: assign_dead_cells_def Let_def)

text \<open>
  C10 (frame of \<^verbatim>\<open>assign_dead_cells\<close>). The distances array is the same after the call
  as before. In an epoch of \<^verbatim>\<open>train\<close>, the distances after the epoch and the
  quantization error that the epoch logs are those of the search on the codebook the
  epoch started with, whether or not the dead cells were reassigned, and the batch update
  is applied to that same codebook, with the best matching units as they are after the
  reassignment.
\<close>

theorem assign_dead_cells_writes_only_bmus:
  "fst (snd (assign_dead_cells cb bmus ds n_rows)) = ds
   \<and> t_distances (train_epoch data num_epochs respect cutoff strides epoch st)
       = distances (find_best_and_next_best_matching_units (t_codebook st) data cutoff)
   \<and> QuantizationError (last (convergence_log
         (train_epoch data num_epochs respect cutoff strides epoch st)))
       = quantization_error
           (distances (find_best_and_next_best_matching_units (t_codebook st) data cutoff))
           (num_rows data)
   \<and> t_codebook (train_epoch data num_epochs respect cutoff strides epoch st)
       = apply_batch_som_update (t_codebook st) data (t_neighbourhood st)
           (t_best_matching_units (train_epoch data num_epochs respect cutoff strides epoch st))
           (if epoch < num_epochs then cutoff else 0)"
proof -
  let ?found = "find_best_and_next_best_matching_units (t_codebook st) data cutoff"
  let ?res = "assign_dead_cells (t_codebook st) (bmu_arrays.best_matching_units ?found)
                (distances ?found) (num_rows data)"
  obtain bmus' ds' gap where res: "?res = (bmus', ds', gap)"
    by (cases ?res) auto
  have "fst (snd ?res) = distances ?found" by (rule assign_dead_cells_distances)
  then have ds': "ds' = distances ?found" by (simp add: res)
  show ?thesis
    by (simp add: assign_dead_cells_distances train_epoch_def Let_def res ds')
qed

subsection \<open>Count building\<close>

lemma key_less:
  fixes nc :: nat
  assumes "v < V" and "c < nc"
  shows "nc * v + c < nc * V"
proof -
  have "nc * v + c < nc * v + nc" using assms(2) by simp
  also have "\<dots> = nc * Suc v" by simp
  also have "\<dots> \<le> nc * V" using assms(1) by (intro mult_le_mono2) simp
  finally show ?thesis .
qed

lemma key_inj:
  fixes nc :: nat
  assumes "c < nc" and "b < nc" and "nc * v + c = nc * w + b"
  shows "v = w \<and> c = b"
proof -
  have "(nc * v + c) div nc = v" and "(nc * w + b) div nc = w"
    using assms(1,2) by simp_all
  with assms(3) have "v = w" by simp
  with assms(3) show ?thesis by simp
qed

lemma count_row_result:
  assumes "nc * V < 2 ^ 32" and "b < nc" and "\<forall>v\<in>set vs. v < V" and "nc * V \<le> length cs"
  shows "((\<exists>v\<in>set vs. MAX_COUNT - 1 < cs ! (nc * v + b) + count_list vs v)
            \<and> count_row nc b vs cs = None)
         \<or> ((\<forall>v\<in>set vs. cs ! (nc * v + b) + count_list vs v \<le> MAX_COUNT - 1)
            \<and> (\<exists>cs'. count_row nc b vs cs = Some cs' \<and> length cs' = length cs
                  \<and> (\<forall>v<V. \<forall>c<nc. cs' ! (nc * v + c)
                          = cs ! (nc * v + c) + (if c = b then count_list vs v else 0))))"
  using assms(3,4)
proof (induction vs arbitrary: cs)
  case Nil
  then show ?case by simp
next
  case (Cons v0 vs)
  let ?k = "nc * v0 + b"
  have v0: "v0 < V" and vs: "\<forall>v\<in>set vs. v < V" using Cons.prems(1) by simp_all
  have k_less: "?k < nc * V" using v0 assms(2) by (rule key_less)
  then have k_mod: "?k mod 4294967296 = ?k" using assms(1) by simp
  have k_len: "?k < length cs" using k_less Cons.prems(2) by simp
  show ?case
  proof (cases "MAX_COUNT - 1 \<le> cs ! ?k")
    case True
    then have "count_row nc b (v0 # vs) cs = None" by (simp add: k_mod Let_def)
    moreover have "MAX_COUNT - 1 < cs ! ?k + count_list (v0 # vs) v0" using True by simp
    ultimately show ?thesis by auto
  next
    case False
    let ?cs = "cs[?k := cs ! ?k + 1]"
    from False have step: "count_row nc b (v0 # vs) cs = count_row nc b vs ?cs"
      by (simp add: k_mod Let_def)
    have len: "nc * V \<le> length ?cs" using Cons.prems(2) by simp
    have upd: "?cs ! (nc * v + c) = cs ! (nc * v + c) + (if v = v0 \<and> c = b then 1 else 0)"
      if "c < nc" for v c
    proof (cases "v = v0 \<and> c = b")
      case True
      then show ?thesis using k_len by simp
    next
      case False
      with key_inj [OF that assms(2)] have "nc * v + c \<noteq> ?k" by blast
      with False show ?thesis by simp
    qed
    have total: "?cs ! (nc * v + b) + count_list vs v = cs ! (nc * v + b) + count_list (v0 # vs) v"
      for v
      using upd [OF assms(2), of v] by simp
    from Cons.IH [OF vs len]
    show ?thesis
    proof (elim disjE conjE exE bexE)
      fix v assume v: "v \<in> set vs"
        and over: "MAX_COUNT - 1 < ?cs ! (nc * v + b) + count_list vs v"
        and none: "count_row nc b vs ?cs = None"
      from over have "MAX_COUNT - 1 < cs ! (nc * v + b) + count_list (v0 # vs) v"
        by (simp only: total)
      moreover from v have "v \<in> set (v0 # vs)" by simp
      ultimately have "\<exists>v\<in>set (v0 # vs). MAX_COUNT - 1 < cs ! (nc * v + b) + count_list (v0 # vs) v"
        by blast
      moreover have "count_row nc b (v0 # vs) cs = None" using none by (simp only: step)
      ultimately show ?thesis by blast
    next
      fix cs'
      assume ok: "\<forall>v\<in>set vs. ?cs ! (nc * v + b) + count_list vs v \<le> MAX_COUNT - 1"
        and res: "count_row nc b vs ?cs = Some cs'" and len': "length cs' = length ?cs"
        and vals: "\<forall>v<V. \<forall>c<nc. cs' ! (nc * v + c)
                     = ?cs ! (nc * v + c) + (if c = b then count_list vs v else 0)"
      have "\<forall>v\<in>set (v0 # vs). cs ! (nc * v + b) + count_list (v0 # vs) v \<le> MAX_COUNT - 1"
      proof
        fix v assume that: "v \<in> set (v0 # vs)"
        show "cs ! (nc * v + b) + count_list (v0 # vs) v \<le> MAX_COUNT - 1"
      proof (cases "v \<in> set vs")
        case True
        with ok show ?thesis unfolding total by blast
      next
        case False
        with that have "v = v0" and "count_list vs v0 = 0" by (simp_all add: count_list_0_iff)
        with \<open>\<not> MAX_COUNT - 1 \<le> cs ! ?k\<close> show ?thesis by simp
      qed
      qed
      moreover have "\<forall>v<V. \<forall>c<nc. cs' ! (nc * v + c)
                       = cs ! (nc * v + c) + (if c = b then count_list (v0 # vs) v else 0)"
        using vals upd by simp
      moreover have "count_row nc b (v0 # vs) cs = Some cs'" using res by (simp only: step)
      moreover have "length cs' = length cs" using len' by simp
      ultimately show ?thesis by blast
    qed
  qed
qed

lemma count_rows_result:
  fixes sm :: SemanticMap and data :: BinarySparseMatrix
  defines "nc \<equiv> SemanticMap.num_cells sm" and "V \<equiv> vocabulary_size sm"
  defines "occ \<equiv> \<lambda>rows v c. (\<Sum>row\<leftarrow>rows.
      if SemanticMap.best_matching_units sm ! row = c then count_list (row_indices data row) v
      else 0)"
  assumes "nc * V < 2 ^ 32"
    and "\<forall>row\<in>set rows. SemanticMap.best_matching_units sm ! row < nc"
    and "\<forall>row\<in>set rows. \<forall>v\<in>set (row_indices data row). v < V"
    and "nc * V \<le> length cs"
    and "\<forall>v<V. \<forall>c<nc. cs ! (nc * v + c) \<le> MAX_COUNT - 1"
  shows "((\<exists>v<V. \<exists>c<nc. MAX_COUNT - 1 < cs ! (nc * v + c) + occ rows v c)
            \<and> count_rows sm data rows cs = None)
         \<or> ((\<forall>v<V. \<forall>c<nc. cs ! (nc * v + c) + occ rows v c \<le> MAX_COUNT - 1)
            \<and> (\<exists>cs'. count_rows sm data rows cs = Some cs'
                  \<and> (\<forall>v<V. \<forall>c<nc. cs' ! (nc * v + c) = cs ! (nc * v + c) + occ rows v c)))"
  using assms(5-8)
proof (induction rows arbitrary: cs)
  case Nil
  then show ?case by (simp add: occ_def)
next
  case (Cons row rows)
  let ?b = "SemanticMap.best_matching_units sm ! row"
  let ?vs = "row_indices data row"
  have b: "?b < nc" and vs: "\<forall>v\<in>set ?vs. v < V" using Cons.prems(1,2) by simp_all
  have rest1: "\<forall>row\<in>set rows. SemanticMap.best_matching_units sm ! row < nc"
    and rest2: "\<forall>row\<in>set rows. \<forall>v\<in>set (row_indices data row). v < V"
    using Cons.prems(1,2) by simp_all
  have occ_Cons: "occ (row # rows) v c = (if ?b = c then count_list ?vs v else 0) + occ rows v c"
    for v c by (simp add: occ_def)
  have unfold: "count_rows sm data (row # rows) cs
                = (case count_row nc ?b ?vs cs of None \<Rightarrow> None
                   | Some cs' \<Rightarrow> count_rows sm data rows cs')"
    by (simp add: nc_def row_indices_def)
  from count_row_result [OF assms(4) b vs Cons.prems(3)]
  show ?case
  proof (elim disjE conjE exE bexE)
    fix v assume v: "v \<in> set ?vs"
      and over: "MAX_COUNT - 1 < cs ! (nc * v + ?b) + count_list ?vs v"
      and none: "count_row nc ?b ?vs cs = None"
    from over have "MAX_COUNT - 1 < cs ! (nc * v + ?b) + occ (row # rows) v ?b"
      by (simp add: occ_Cons)
    moreover have "v < V" using vs v by blast
    ultimately have "\<exists>v<V. \<exists>c<nc. MAX_COUNT - 1 < cs ! (nc * v + c) + occ (row # rows) v c"
      using b by blast
    moreover have "count_rows sm data (row # rows) cs = None"
      unfolding unfold none by simp
    ultimately show ?thesis by blast
  next
    fix cs1
    assume ok: "\<forall>v\<in>set ?vs. cs ! (nc * v + ?b) + count_list ?vs v \<le> MAX_COUNT - 1"
      and res: "count_row nc ?b ?vs cs = Some cs1" and len1: "length cs1 = length cs"
      and vals: "\<forall>v<V. \<forall>c<nc. cs1 ! (nc * v + c)
                   = cs ! (nc * v + c) + (if c = ?b then count_list ?vs v else 0)"
    have total: "cs1 ! (nc * v + c) + occ rows v c = cs ! (nc * v + c) + occ (row # rows) v c"
      if "v < V" and "c < nc" for v c
      using vals that by (auto simp: occ_Cons)
    have inv1: "\<forall>v<V. \<forall>c<nc. cs1 ! (nc * v + c) \<le> MAX_COUNT - 1"
    proof (intro allI impI)
      fix v c assume v: "v < V" and c: "c < nc"
      show "cs1 ! (nc * v + c) \<le> MAX_COUNT - 1"
      proof (cases "c = ?b \<and> v \<in> set ?vs")
        case True
        with ok vals v c show ?thesis by simp
      next
        case False
        then have "(if c = ?b then count_list ?vs v else 0) = 0"
          by (auto simp: count_list_0_iff)
        with vals v c have "cs1 ! (nc * v + c) = cs ! (nc * v + c)" by simp
        with Cons.prems(4) v c show ?thesis by simp
      qed
    qed
    have len: "nc * V \<le> length cs1" using Cons.prems(3) len1 by simp
    have step: "count_rows sm data (row # rows) cs = count_rows sm data rows cs1"
      unfolding unfold res by simp
    from Cons.IH [OF rest1 rest2 len inv1]
    show ?thesis
    proof (elim disjE conjE exE)
      fix v c assume "v < V" and "c < nc"
        and "MAX_COUNT - 1 < cs1 ! (nc * v + c) + occ rows v c"
        and none: "count_rows sm data rows cs1 = None"
      then have "\<exists>v<V. \<exists>c<nc. MAX_COUNT - 1 < cs ! (nc * v + c) + occ (row # rows) v c"
        using total by auto
      then show ?thesis using none unfolding step by blast
    next
      fix cs'
      assume ok': "\<forall>v<V. \<forall>c<nc. cs1 ! (nc * v + c) + occ rows v c \<le> MAX_COUNT - 1"
        and res': "count_rows sm data rows cs1 = Some cs'"
        and vals': "\<forall>v<V. \<forall>c<nc. cs' ! (nc * v + c) = cs1 ! (nc * v + c) + occ rows v c"
      have "\<forall>v<V. \<forall>c<nc. cs ! (nc * v + c) + occ (row # rows) v c \<le> MAX_COUNT - 1"
        using ok' total by simp
      moreover have "\<forall>v<V. \<forall>c<nc. cs' ! (nc * v + c) = cs ! (nc * v + c) + occ (row # rows) v c"
        using vals' total by simp
      ultimately show ?thesis using res' unfolding step by blast
    qed
  qed
qed

text \<open>
  Count building when the tensor is addressable with 32 bits, the best matching units are
  cells of the map and the indices are below the vocabulary size: \<^verbatim>\<open>build_counts\<close>
  never writes the best-matching-unit array; if some count would exceed \<open>2^32 - 2\<close>, the
  count tensor is dropped; otherwise the tensor holds, at \<^verbatim>\<open>num_cells * v + c\<close>, the
  number of occurrences of the index \<open>v\<close> in the rows whose best matching unit is \<open>c\<close>,
  one increment for every row and every sparse index of the row.
\<close>

lemma build_counts_result:
  assumes "SemanticMap.num_cells sm * vocabulary_size sm < 2 ^ 32"
    and "\<forall>row<num_rows data. SemanticMap.best_matching_units sm ! row < SemanticMap.num_cells sm"
    and "\<forall>row<num_rows data. \<forall>v\<in>set (row_indices data row). v < vocabulary_size sm"
  shows "SemanticMap.best_matching_units (build_counts sm data) = SemanticMap.best_matching_units sm
         \<and> ((\<exists>v<vocabulary_size sm. \<exists>c<SemanticMap.num_cells sm.
                4294967294 < association_count data (SemanticMap.best_matching_units sm) v c)
              \<longrightarrow> counts (build_counts sm data) = None)
         \<and> ((\<forall>v<vocabulary_size sm. \<forall>c<SemanticMap.num_cells sm.
                association_count data (SemanticMap.best_matching_units sm) v c \<le> 4294967294)
              \<longrightarrow> (\<exists>cs. counts (build_counts sm data) = Some cs
                     \<and> (\<forall>v<vocabulary_size sm. \<forall>c<SemanticMap.num_cells sm.
                           cs ! (SemanticMap.num_cells sm * v + c)
                             = association_count data (SemanticMap.best_matching_units sm) v c)))"
proof -
  let ?nc = "SemanticMap.num_cells sm" and ?V = "vocabulary_size sm"
  let ?n = "?nc * ?V"
  define cs0 where "cs0 = (case counts sm of None \<Rightarrow> replicate ?n 0
                                           | Some old \<Rightarrow> replicate ?n 0 @ drop ?n old)"
  have n_mod: "(?nc * ?V) mod 4294967296 = ?n" using assms(1) by simp
  have build: "build_counts sm data
               = (case count_rows sm data [0..<num_rows data] cs0 of
                    None \<Rightarrow> delete_counts sm | Some cs \<Rightarrow> sm\<lparr>counts := Some cs\<rparr>)"
    by (simp add: build_counts_def n_mod Let_def cs0_def)
  have bmus: "SemanticMap.best_matching_units (build_counts sm data)
              = SemanticMap.best_matching_units sm"
    unfolding build by (simp add: delete_counts_def split: option.splits)
  have len0: "?n \<le> length cs0" by (simp add: cs0_def split: option.splits)
  have zero: "cs0 ! (?nc * v + c) = 0" if "v < ?V" and "c < ?nc" for v c
  proof -
    have "?nc * v + c < ?n" using that by (rule key_less)
    then show ?thesis by (simp add: cs0_def nth_append split: option.splits)
  qed
  then have inv0: "\<forall>v<?V. \<forall>c<?nc. cs0 ! (?nc * v + c) \<le> MAX_COUNT - 1" by simp
  have r1: "\<forall>row\<in>set [0..<num_rows data]. SemanticMap.best_matching_units sm ! row < ?nc"
    and r2: "\<forall>row\<in>set [0..<num_rows data]. \<forall>v\<in>set (row_indices data row). v < ?V"
    using assms(2,3) by simp_all
  have max: "MAX_COUNT - 1 = 4294967294" by (simp add: MAX_COUNT_def)
  note res = count_rows_result [OF assms(1) r1 r2 len0 inv0,
      folded association_count_def, unfolded max]
  have over: "counts (build_counts sm data) = None"
    if "\<exists>v<?V. \<exists>c<?nc. 4294967294 < association_count data (SemanticMap.best_matching_units sm) v c"
  proof -
    from that obtain v c where "v < ?V" and "c < ?nc"
      and "4294967294 < association_count data (SemanticMap.best_matching_units sm) v c"
      by blast
    with zero [of v c] have "\<not> cs0 ! (?nc * v + c)
        + association_count data (SemanticMap.best_matching_units sm) v c \<le> 4294967294"
      by simp
    with \<open>v < ?V\<close> \<open>c < ?nc\<close>
    have "\<not> (\<forall>v<?V. \<forall>c<?nc. cs0 ! (?nc * v + c)
        + association_count data (SemanticMap.best_matching_units sm) v c \<le> 4294967294)"
      by blast
    with res have "count_rows sm data [0..<num_rows data] cs0 = None"
      by blast
    then show ?thesis unfolding build by (simp add: delete_counts_def)
  qed
  have fits: "\<exists>cs. counts (build_counts sm data) = Some cs
                \<and> (\<forall>v<?V. \<forall>c<?nc. cs ! (?nc * v + c)
                       = association_count data (SemanticMap.best_matching_units sm) v c)"
    if "\<forall>v<?V. \<forall>c<?nc. association_count data (SemanticMap.best_matching_units sm) v c \<le> 4294967294"
  proof -
    have "\<not> 4294967294
        < cs0 ! (?nc * v + c) + association_count data (SemanticMap.best_matching_units sm) v c"
      if "v < ?V" and "c < ?nc" for v c
      using zero [OF that] \<open>\<forall>v<?V. \<forall>c<?nc. association_count data
        (SemanticMap.best_matching_units sm) v c \<le> 4294967294\<close> that
      by (simp add: not_less)
    then have "\<not> (\<exists>v<?V. \<exists>c<?nc. 4294967294
        < cs0 ! (?nc * v + c) + association_count data (SemanticMap.best_matching_units sm) v c)"
      by blast
    with res obtain cs where cs: "count_rows sm data [0..<num_rows data] cs0 = Some cs"
      and vals: "\<forall>v<?V. \<forall>c<?nc. cs ! (?nc * v + c)
                   = cs0 ! (?nc * v + c) + association_count data (SemanticMap.best_matching_units sm) v c"
      by blast
    have "counts (build_counts sm data) = Some cs" unfolding build by (simp add: cs)
    moreover have "\<forall>v<?V. \<forall>c<?nc. cs ! (?nc * v + c)
                       = association_count data (SemanticMap.best_matching_units sm) v c"
      using vals zero by simp
    ultimately show ?thesis by blast
  qed
  from bmus over fits show ?thesis by blast
qed

lemma build_counts_result_example:
  "SemanticMap.num_cells semantic_map_two_cells * vocabulary_size semantic_map_two_cells
     < (2 :: nat) ^ 32
   \<and> num_rows corpus_one_row = 1
   \<and> SemanticMap.best_matching_units semantic_map_two_cells ! 0
       < SemanticMap.num_cells semantic_map_two_cells
   \<and> row_indices corpus_one_row 0 = [0]
   \<and> build_counts semantic_map_two_cells corpus_one_row
       = semantic_map_two_cells\<lparr>counts := Some [0, 1, 0, 0]\<rparr>
   \<and> association_count corpus_one_row [1] 0 1 = 1
   \<and> SemanticMap.best_matching_units (build_counts semantic_map_two_cells corpus_one_row)
       = SemanticMap.best_matching_units semantic_map_two_cells
   \<and> (\<exists>cs. counts (build_counts semantic_map_two_cells corpus_one_row) = Some cs
         \<and> (\<forall>v<vocabulary_size semantic_map_two_cells.
              \<forall>c<SemanticMap.num_cells semantic_map_two_cells.
                cs ! (SemanticMap.num_cells semantic_map_two_cells * v + c)
                  = association_count corpus_one_row
                      (SemanticMap.best_matching_units semantic_map_two_cells) v c))"
proof -
  have rows: "num_rows corpus_one_row = 1"
    by (simp add: corpus_one_row_def init_sum_of_squares_def)
  have idx: "row_indices corpus_one_row 0 = [0]"
    by (simp add: row_indices_def corpus_one_row_def init_sum_of_squares_def
        num_indices_in_row_def indices_in_row_def)
  have h1: "SemanticMap.num_cells semantic_map_two_cells * vocabulary_size semantic_map_two_cells
              < (2 :: nat) ^ 32"
    by (simp add: semantic_map_two_cells_def)
  have b0: "SemanticMap.best_matching_units semantic_map_two_cells ! 0
              < SemanticMap.num_cells semantic_map_two_cells"
    by (simp add: semantic_map_two_cells_def)
  have h2: "\<forall>row<num_rows corpus_one_row.
              SemanticMap.best_matching_units semantic_map_two_cells ! row
                < SemanticMap.num_cells semantic_map_two_cells"
    using b0 by (simp add: rows)
  have h3: "\<forall>row<num_rows corpus_one_row. \<forall>v\<in>set (row_indices corpus_one_row row).
              v < vocabulary_size semantic_map_two_cells"
    by (simp add: rows idx semantic_map_two_cells_def)
  have assoc: "association_count corpus_one_row
                 (SemanticMap.best_matching_units semantic_map_two_cells) v c
               = (if c = 1 \<and> v = 0 then 1 else 0)" for v c
    by (auto simp: association_count_def rows idx semantic_map_two_cells_def)
  have fits: "\<forall>v<vocabulary_size semantic_map_two_cells.
              \<forall>c<SemanticMap.num_cells semantic_map_two_cells.
                association_count corpus_one_row
                  (SemanticMap.best_matching_units semantic_map_two_cells) v c \<le> 4294967294"
    by (simp add: assoc)
  note main = build_counts_result [OF h1 h2 h3]
  note ex = main [THEN conjunct2, THEN conjunct2, THEN mp, OF fits]
  have zeros: "replicate 4 (0::nat) = [0, 0, 0, 0]"
    by (simp add: numeral_eq_Suc)
  have run: "build_counts semantic_map_two_cells corpus_one_row
             = semantic_map_two_cells\<lparr>counts := Some [0, 1, 0, 0]\<rparr>"
    by (simp add: build_counts_def semantic_map_two_cells_def corpus_one_row_def
        init_sum_of_squares_def num_indices_in_row_def indices_in_row_def MAX_COUNT_def
        upt_rec Let_def zeros)
  have a: "association_count corpus_one_row [1] 0 1 = 1"
    using assoc [of 0 1] by (simp add: semantic_map_two_cells_def)
  from h1 rows b0 idx run a main [THEN conjunct1] ex show ?thesis by (intro conjI)
qed

text \<open>
  C9 (count building: for every row and every sparse index \<open>v\<close> of the row,
  \<^verbatim>\<open>counts[num_cells * v + BMU]\<close> is incremented by one). \<^verbatim>\<open>build_counts\<close> computes the
  size of the tensor and the index in 32 bit unsigned arithmetic. With three cells and a
  vocabulary of 1431655766 indices it allocates two cells instead of \<open>2^32 + 2\<close>, and the
  increment for the index 1431655765 in a row with the best matching unit 1, at
  \<open>3 * 1431655765 + 1 = 2^32\<close>, lands on \<^verbatim>\<open>counts[0]\<close>, the cell of the index 0 and the
  best matching unit 0: that cell holds 2 where one row associates the index 0 with the
  cell 0.
\<close>

theorem build_counts_index_wraps:
  "SemanticMap.num_cells semantic_map_wide * vocabulary_size semantic_map_wide = 2 ^ 32 + 2
   \<and> num_rows corpus_wide = 2
   \<and> row_indices corpus_wide 0 = [0] \<and> row_indices corpus_wide 1 = [1431655765]
   \<and> SemanticMap.best_matching_units semantic_map_wide = [0, 1]
   \<and> SemanticMap.num_cells semantic_map_wide * 1431655765 + 1 = 2 ^ 32
   \<and> build_counts semantic_map_wide corpus_wide = semantic_map_wide\<lparr>counts := Some [2, 0]\<rparr>
   \<and> association_count corpus_wide (SemanticMap.best_matching_units semantic_map_wide) 0 0 = 1
   \<and> association_count corpus_wide (SemanticMap.best_matching_units semantic_map_wide)
         1431655765 1 = 1"
proof -
  have size: "SemanticMap.num_cells semantic_map_wide * vocabulary_size semantic_map_wide
              = 2 ^ 32 + 2"
    by (simp add: semantic_map_wide_def)
  have rows: "num_rows corpus_wide = 2" by (simp add: corpus_wide_def)
  have idx0: "row_indices corpus_wide 0 = [0]"
    and idx1: "row_indices corpus_wide 1 = [1431655765]"
    by (simp_all add: row_indices_def corpus_wide_def num_indices_in_row_def indices_in_row_def)
  have bmus: "SemanticMap.best_matching_units semantic_map_wide = [0, 1]"
    by (simp add: semantic_map_wide_def)
  have key: "SemanticMap.num_cells semantic_map_wide * 1431655765 + 1 = 2 ^ 32"
    by (simp add: semantic_map_wide_def)
  have two: "[0..<2] = [0, 1]" by (simp add: upt_rec)
  have zeros: "replicate 2 (0::nat) = [0, 0]" by (simp add: numeral_2_eq_2)
  have r0: "take (num_indices_in_row corpus_wide 0) (indices_in_row corpus_wide 0) = [0]"
    using idx0 by (simp add: row_indices_def)
  have r1: "take (num_indices_in_row corpus_wide 1) (indices_in_row corpus_wide 1)
            = [1431655765]"
    using idx1 by (simp add: row_indices_def)
  have run: "build_counts semantic_map_wide corpus_wide
             = semantic_map_wide\<lparr>counts := Some [2, 0]\<rparr>"
    by (simp add: build_counts_def rows two r0 r1 [unfolded One_nat_def] Let_def
        semantic_map_wide_def zeros MAX_COUNT_def)
  have a0: "association_count corpus_wide (SemanticMap.best_matching_units semantic_map_wide) 0 0
            = 1"
    by (simp add: association_count_def rows two idx0 idx1 [unfolded One_nat_def] bmus)
  have a1: "association_count corpus_wide (SemanticMap.best_matching_units semantic_map_wide)
              1431655765 1 = 1"
    by (simp add: association_count_def rows two idx0 idx1 [unfolded One_nat_def] bmus)
  from size rows idx0 idx1 bmus key run a0 a1 show ?thesis by (intro conjI)
qed

subsection \<open>Batch update\<close>

lemma numerator_loop_length:
  "length (numerator_loop idxs eff lr num) = length num"
  by (induction idxs arbitrary: num) simp_all

lemma numerator_loop_untouched:
  "i \<notin> set idxs \<Longrightarrow> numerator_loop idxs eff lr num ! i = num ! i"
  by (induction idxs arbitrary: num) simp_all

lemma numerator_loop_bounds:
  assumes "distinct idxs" and "0 \<le> lr" and "i < length num"
  shows "num ! i \<le> numerator_loop idxs eff lr num ! i
         \<and> numerator_loop idxs eff lr num ! i \<le> num ! i + lr"
  using assms(1,3)
proof (induction idxs arbitrary: num)
  case Nil
  then show ?case using assms(2) by simp
next
  case (Cons idx rest)
  show ?case
  proof (cases "eff \<le> idx")
    case True
    then show ?thesis using assms(2) by simp
  next
    case False
    let ?num = "num[idx := num ! idx + lr]"
    from False have step: "numerator_loop (idx # rest) eff lr num = numerator_loop rest eff lr ?num"
      by simp
    have rest: "distinct rest" and notin: "idx \<notin> set rest" using Cons.prems(1) by simp_all
    show ?thesis
    proof (cases "i = idx")
      case True
      have "numerator_loop rest eff lr ?num ! idx = ?num ! idx"
        using notin by (rule numerator_loop_untouched)
      also have "\<dots> = num ! idx + lr" using Cons.prems(2) True by simp
      finally show ?thesis unfolding step using True assms(2) by simp
    next
      case False
      have "i < length ?num" using Cons.prems(2) by simp
      from Cons.IH [OF rest this] False show ?thesis unfolding step by simp
    qed
  qed
qed

lemma batch_row_invariant:
  assumes "distinct (row_indices data row)"
    and "0 \<le> fst st" and "\<forall>i<length (snd st). 0 \<le> snd st ! i \<and> snd st ! i \<le> fst st"
  shows "0 \<le> fst (batch_row data nb bmus eff cell row st)
         \<and> length (snd (batch_row data nb bmus eff cell row st)) = length (snd st)
         \<and> (\<forall>i<length (snd st). 0 \<le> snd (batch_row data nb bmus eff cell row st) ! i
               \<and> snd (batch_row data nb bmus eff cell row st) ! i
                   \<le> fst (batch_row data nb bmus eff cell row st))"
proof (cases "influence nb (bmus ! row) cell \<le> 0")
  case True
  then have "batch_row data nb bmus eff cell row st = st"
    by (simp add: batch_row_def Let_def)
  then show ?thesis using assms(2,3) by simp
next
  case False
  let ?lr = "influence nb (bmus ! row) cell"
  from False have lr: "0 \<le> ?lr" by simp
  from False have res: "batch_row data nb bmus eff cell row st
      = (fst st + ?lr, numerator_loop (row_indices data row) eff ?lr (snd st))"
    by (simp add: batch_row_def Let_def row_indices_def)
  have "0 \<le> numerator_loop (row_indices data row) eff ?lr (snd st) ! i
        \<and> numerator_loop (row_indices data row) eff ?lr (snd st) ! i \<le> fst st + ?lr"
    if "i < length (snd st)" for i
  proof -
    from numerator_loop_bounds [OF assms(1) lr that, of eff]
    have "snd st ! i \<le> numerator_loop (row_indices data row) eff ?lr (snd st) ! i"
      and "numerator_loop (row_indices data row) eff ?lr (snd st) ! i \<le> snd st ! i + ?lr"
      by simp_all
    moreover from assms(3) that have "0 \<le> snd st ! i" and "snd st ! i \<le> fst st" by simp_all
    ultimately show ?thesis by linarith
  qed
  then show ?thesis using assms(2) lr unfolding res by (simp add: numerator_loop_length)
qed

lemma batch_rows_invariant:
  assumes "\<forall>row\<in>set rows. distinct (row_indices data row)"
    and "0 \<le> fst st" and "\<forall>i<length (snd st). 0 \<le> snd st ! i \<and> snd st ! i \<le> fst st"
  shows "0 \<le> fst (fold (batch_row data nb bmus eff cell) rows st)
         \<and> length (snd (fold (batch_row data nb bmus eff cell) rows st)) = length (snd st)
         \<and> (\<forall>i<length (snd st). 0 \<le> snd (fold (batch_row data nb bmus eff cell) rows st) ! i
               \<and> snd (fold (batch_row data nb bmus eff cell) rows st) ! i
                   \<le> fst (fold (batch_row data nb bmus eff cell) rows st))"
  using assms
proof (induction rows arbitrary: st)
  case Nil
  then show ?case by simp
next
  case (Cons row rows)
  let ?st = "batch_row data nb bmus eff cell row st"
  have "distinct (row_indices data row)" using Cons.prems(1) by simp
  from batch_row_invariant [OF this Cons.prems(2,3), of nb bmus eff cell]
  have a: "0 \<le> fst ?st" and b: "length (snd ?st) = length (snd st)"
    and c: "\<forall>i<length (snd ?st). 0 \<le> snd ?st ! i \<and> snd ?st ! i \<le> fst ?st"
    by simp_all
  have "\<forall>row\<in>set rows. distinct (row_indices data row)" using Cons.prems(1) by simp
  from Cons.IH [OF this a c] show ?case by (simp add: b)
qed

lemma batch_sums_bounds:
  assumes "\<forall>row<num_rows data. distinct (row_indices data row)"
  shows "0 \<le> fst (batch_sums data nb bmus eff n_dim cell)"
    and "length (snd (batch_sums data nb bmus eff n_dim cell)) = n_dim"
    and "\<forall>i<n_dim. 0 \<le> snd (batch_sums data nb bmus eff n_dim cell) ! i
           \<and> snd (batch_sums data nb bmus eff n_dim cell) ! i
               \<le> fst (batch_sums data nb bmus eff n_dim cell)"
proof -
  have rows: "\<forall>row\<in>set [0..<num_rows data]. distinct (row_indices data row)"
    using assms by simp
  have "0 \<le> fst ((0, replicate n_dim 0) :: Float \<times> Float list)" by simp
  moreover have "\<forall>i<length (snd ((0, replicate n_dim 0) :: Float \<times> Float list)).
      0 \<le> snd ((0, replicate n_dim 0) :: Float \<times> Float list) ! i
      \<and> snd ((0, replicate n_dim 0) :: Float \<times> Float list) ! i \<le> fst ((0, replicate n_dim 0) :: Float \<times> Float list)"
    by simp
  ultimately have inv: "0 \<le> fst (batch_sums data nb bmus eff n_dim cell)
         \<and> length (snd (batch_sums data nb bmus eff n_dim cell)) = length (snd ((0, replicate n_dim 0) :: Float \<times> Float list))
         \<and> (\<forall>i<length (snd ((0, replicate n_dim 0) :: Float \<times> Float list)).
               0 \<le> snd (batch_sums data nb bmus eff n_dim cell) ! i
               \<and> snd (batch_sums data nb bmus eff n_dim cell) ! i
                   \<le> fst (batch_sums data nb bmus eff n_dim cell))"
    unfolding batch_sums_def by (rule batch_rows_invariant [OF rows])
  from inv show "0 \<le> fst (batch_sums data nb bmus eff n_dim cell)" by simp
  from inv show "length (snd (batch_sums data nb bmus eff n_dim cell)) = n_dim" by simp
  from inv show "\<forall>i<n_dim. 0 \<le> snd (batch_sums data nb bmus eff n_dim cell) ! i
           \<and> snd (batch_sums data nb bmus eff n_dim cell) ! i
               \<le> fst (batch_sums data nb bmus eff n_dim cell)" by simp
qed

lemma write_block_length:
  "length (fold (\<lambda>i arr. arr[off + i := f i]) is (arr :: Float list)) = length arr"
  by (induction "is" arbitrary: arr) simp_all

lemma write_block_nth:
  "j < length arr
   \<Longrightarrow> fold (\<lambda>i arr. arr[off + i := f i]) is (arr :: Float list) ! j
       = (if \<exists>i\<in>set is. j = off + i then f (j - off) else arr ! j)"
proof (induction "is" arbitrary: arr)
  case Nil
  then show ?case by simp
next
  case (Cons i "is")
  from Cons.prems have "j < length (arr[off + i := f i])" by simp
  from Cons.IH [OF this] Cons.prems show ?case
    by (auto simp: nth_list_update)
qed

lemma batch_cell_array:
  "batch_cell data nb bmus eff c cb
   = cb\<lparr>array :=
        (if fst (batch_sums data nb bmus eff (input_dim cb) c) \<noteq> 0
         then fold (\<lambda>i arr. arr[c * input_dim cb + i :=
                      snd (batch_sums data nb bmus eff (input_dim cb) c) ! i
                      / fst (batch_sums data nb bmus eff (input_dim cb) c)])
                   [0..<input_dim cb] (array cb)
         else array cb)\<rparr>"
  by (simp add: batch_cell_def batch_sums_def Let_def)

lemma batch_cell_input_dim: "input_dim (batch_cell data nb bmus eff c cb) = input_dim cb"
  by (simp add: batch_cell_array)

lemma batch_cell_length:
  "length (array (batch_cell data nb bmus eff c cb)) = length (array cb)"
  by (simp add: batch_cell_array write_block_length)

lemma batch_cell_nth:
  assumes "j < length (array cb)"
  shows "array (batch_cell data nb bmus eff c cb) ! j
         = (if fst (batch_sums data nb bmus eff (input_dim cb) c) \<noteq> 0
               \<and> c * input_dim cb \<le> j \<and> j < c * input_dim cb + input_dim cb
            then snd (batch_sums data nb bmus eff (input_dim cb) c) ! (j - c * input_dim cb)
                 / fst (batch_sums data nb bmus eff (input_dim cb) c)
            else array cb ! j)"
proof -
  have "(\<exists>i\<in>set [0..<input_dim cb]. j = c * input_dim cb + i)
        \<longleftrightarrow> c * input_dim cb \<le> j \<and> j < c * input_dim cb + input_dim cb"
    by (auto intro: bexI [where x = "j - c * input_dim cb"])
  then show ?thesis
    using assms by (simp add: batch_cell_array write_block_nth)
qed

lemma ratio_in_unit_interval:
  fixes n d :: real
  assumes "0 \<le> n" and "n \<le> d" and "d \<noteq> 0"
  shows "0 \<le> n / d \<and> n / d \<le> 1"
proof -
  from assms have "0 < d" by linarith
  with assms(1,2) show ?thesis by simp
qed

lemma batch_cell_unit_interval:
  assumes "\<forall>row<num_rows data. distinct (row_indices data row)"
    and "\<forall>x\<in>set (array cb). 0 \<le> x \<and> x \<le> 1"
  shows "\<forall>x\<in>set (array (batch_cell data nb bmus eff c cb)). 0 \<le> x \<and> x \<le> 1"
proof
  fix x assume "x \<in> set (array (batch_cell data nb bmus eff c cb))"
  then obtain j where j: "j < length (array cb)"
    and x: "x = array (batch_cell data nb bmus eff c cb) ! j"
    by (auto simp: in_set_conv_nth batch_cell_length)
  let ?S = "batch_sums data nb bmus eff (input_dim cb) c"
  show "0 \<le> x \<and> x \<le> 1"
  proof (cases "fst ?S \<noteq> 0 \<and> c * input_dim cb \<le> j \<and> j < c * input_dim cb + input_dim cb")
    case True
    then have i: "j - c * input_dim cb < input_dim cb" by linarith
    from True have "x = snd ?S ! (j - c * input_dim cb) / fst ?S"
      unfolding x batch_cell_nth [OF j] by simp
    moreover from batch_sums_bounds(3) [OF assms(1), where nb = nb and bmus = bmus
        and eff = eff and n_dim = "input_dim cb" and cell = c] i
    have "0 \<le> snd ?S ! (j - c * input_dim cb)" and "snd ?S ! (j - c * input_dim cb) \<le> fst ?S"
      by simp_all
    ultimately show ?thesis using True ratio_in_unit_interval by simp
  next
    case False
    then have "x = array cb ! j" unfolding x batch_cell_nth [OF j] by auto
    with assms(2) j show ?thesis by simp
  qed
qed

lemma batch_cells_length:
  "length (array (fold (batch_cell data nb bmus eff) cells cb)) = length (array cb)"
  by (induction cells arbitrary: cb) (simp_all add: batch_cell_length)

lemma batch_cells_unit_interval:
  assumes "\<forall>row<num_rows data. distinct (row_indices data row)"
    and "\<forall>x\<in>set (array cb). 0 \<le> x \<and> x \<le> 1"
  shows "\<forall>x\<in>set (array (fold (batch_cell data nb bmus eff) cells cb)). 0 \<le> x \<and> x \<le> 1"
  using assms(2)
proof (induction cells arbitrary: cb)
  case Nil
  then show ?case by simp
next
  case (Cons c cells)
  from batch_cell_unit_interval [OF assms(1) Cons.prems]
  have "\<forall>x\<in>set (array (batch_cell data nb bmus eff c cb)). 0 \<le> x \<and> x \<le> 1" .
  from Cons.IH [OF this] show ?case by simp
qed

lemma block_index:
  fixes n_dim :: nat
  assumes "i < n_dim"
  shows "(c0 * n_dim \<le> c * n_dim + i \<and> c * n_dim + i < c0 * n_dim + n_dim) \<longleftrightarrow> c = c0"
proof
  assume a: "c0 * n_dim \<le> c * n_dim + i \<and> c * n_dim + i < c0 * n_dim + n_dim"
  show "c = c0"
  proof (rule ccontr)
    assume "c \<noteq> c0"
    then consider "c < c0" | "c0 < c" by linarith
    then show False
    proof cases
      case 1
      then have "Suc c * n_dim \<le> c0 * n_dim" by (intro mult_le_mono1) simp
      with a assms show False by simp
    next
      case 2
      then have "Suc c0 * n_dim \<le> c * n_dim" by (intro mult_le_mono1) simp
      with a show False by simp
    qed
  qed
next
  assume "c = c0"
  with assms show "c0 * n_dim \<le> c * n_dim + i \<and> c * n_dim + i < c0 * n_dim + n_dim" by simp
qed

lemma batch_cells_nth:
  assumes "i < input_dim cb" and "c * input_dim cb + i < length (array cb)"
  shows "array (fold (batch_cell data nb bmus eff) cells cb) ! (c * input_dim cb + i)
         = (if c \<in> set cells \<and> fst (batch_sums data nb bmus eff (input_dim cb) c) \<noteq> 0
            then snd (batch_sums data nb bmus eff (input_dim cb) c) ! i
                 / fst (batch_sums data nb bmus eff (input_dim cb) c)
            else array cb ! (c * input_dim cb + i))"
  using assms
proof (induction cells arbitrary: cb)
  case Nil
  then show ?case by simp
next
  case (Cons c0 cells)
  let ?cb = "batch_cell data nb bmus eff c0 cb"
  have dim: "input_dim ?cb = input_dim cb" by (rule batch_cell_input_dim)
  have len: "length (array ?cb) = length (array cb)" by (rule batch_cell_length)
  have first: "array ?cb ! (c * input_dim cb + i)
               = (if fst (batch_sums data nb bmus eff (input_dim cb) c0) \<noteq> 0 \<and> c = c0
                  then snd (batch_sums data nb bmus eff (input_dim cb) c0) ! i
                       / fst (batch_sums data nb bmus eff (input_dim cb) c0)
                  else array cb ! (c * input_dim cb + i))"
    unfolding batch_cell_nth [OF Cons.prems(2)] block_index [OF Cons.prems(1)]
    by simp
  from Cons.IH [of ?cb] Cons.prems
  have "array (fold (batch_cell data nb bmus eff) cells ?cb) ! (c * input_dim cb + i)
        = (if c \<in> set cells \<and> fst (batch_sums data nb bmus eff (input_dim cb) c) \<noteq> 0
           then snd (batch_sums data nb bmus eff (input_dim cb) c) ! i
                / fst (batch_sums data nb bmus eff (input_dim cb) c)
           else array ?cb ! (c * input_dim cb + i))"
    by (simp add: dim len)
  then show ?case unfolding first by auto
qed

lemma init_entries:
  "length (array (init cb uniform)) = size' cb
   \<and> (\<forall>i < size' cb. array (init cb uniform) ! i = uniform i)"
  by (simp add: init_def)

text \<open>
  C6 (codebook entries stay in \<open>[0, 1]\<close>). \<^verbatim>\<open>init\<close> gives the codebook \<open>size\<close> entries,
  the samples drawn, so that every entry is in \<open>[0, 1]\<close> when the samples are. For a
  corpus whose rows hold each index at most once, the numerator of every dimension of
  every target cell is between 0 and the denominator. The batch update writes
  numerator / denominator into the entries of the cells with a denominator other than 0
  and leaves the other cells as they are; and when every entry is in \<open>[0, 1]\<close> before the
  update, every entry is in \<open>[0, 1]\<close> after it.
\<close>

theorem batch_update_unit_interval:
  "((\<forall>i < size' cb0. 0 \<le> uniform i \<and> uniform i \<le> 1)
      \<longrightarrow> length (array (init cb0 uniform)) = size' cb0
          \<and> (\<forall>i < size' cb0. array (init cb0 uniform) ! i = uniform i)
          \<and> (\<forall>x\<in>set (array (init cb0 uniform)). 0 \<le> x \<and> x \<le> 1))
   \<and> ((\<forall>row<num_rows data. distinct (row_indices data row))
      \<longrightarrow> (\<forall>c<Codebook.num_cells cb. \<forall>i<input_dim cb.
               0 \<le> snd (batch_sums data nb bmus (if 0 < cutoff then cutoff else input_dim cb)
                           (input_dim cb) c) ! i
               \<and> snd (batch_sums data nb bmus (if 0 < cutoff then cutoff else input_dim cb)
                         (input_dim cb) c) ! i
                   \<le> fst (batch_sums data nb bmus (if 0 < cutoff then cutoff else input_dim cb)
                            (input_dim cb) c)))
   \<and> (length (array cb) = Codebook.num_cells cb * input_dim cb
      \<longrightarrow> (\<forall>c<Codebook.num_cells cb. \<forall>i<input_dim cb.
               array (apply_batch_som_update cb data nb bmus cutoff) ! (c * input_dim cb + i)
               = (if fst (batch_sums data nb bmus (if 0 < cutoff then cutoff else input_dim cb)
                            (input_dim cb) c) \<noteq> 0
                  then snd (batch_sums data nb bmus (if 0 < cutoff then cutoff else input_dim cb)
                              (input_dim cb) c) ! i
                       / fst (batch_sums data nb bmus (if 0 < cutoff then cutoff else input_dim cb)
                               (input_dim cb) c)
                  else array cb ! (c * input_dim cb + i))))
   \<and> ((\<forall>row<num_rows data. distinct (row_indices data row))
        \<and> (\<forall>x\<in>set (array cb). 0 \<le> x \<and> x \<le> 1)
      \<longrightarrow> length (array (apply_batch_som_update cb data nb bmus cutoff)) = length (array cb)
          \<and> (\<forall>x\<in>set (array (apply_batch_som_update cb data nb bmus cutoff)).
                0 \<le> x \<and> x \<le> 1))"
proof (intro conjI impI)
  let ?eff = "if 0 < cutoff then cutoff else input_dim cb"
  have as_fold: "apply_batch_som_update cb data nb bmus cutoff
               = fold (batch_cell data nb bmus ?eff) [0..<Codebook.num_cells cb] cb"
    by (simp add: apply_batch_som_update_def Let_def)
  show "length (array (init cb0 uniform)) = size' cb0"
    using init_entries by blast
  show "\<forall>i < size' cb0. array (init cb0 uniform) ! i = uniform i"
    using init_entries by blast
  show "\<forall>x\<in>set (array (init cb0 uniform)). 0 \<le> x \<and> x \<le> 1"
    if "\<forall>i < size' cb0. 0 \<le> uniform i \<and> uniform i \<le> 1"
    using that by (simp add: init_def)
  show "\<forall>c<Codebook.num_cells cb. \<forall>i<input_dim cb.
          0 \<le> snd (batch_sums data nb bmus ?eff (input_dim cb) c) ! i
          \<and> snd (batch_sums data nb bmus ?eff (input_dim cb) c) ! i
              \<le> fst (batch_sums data nb bmus ?eff (input_dim cb) c)"
    if "\<forall>row<num_rows data. distinct (row_indices data row)"
    using batch_sums_bounds(3) [OF that] by blast
  show "\<forall>c<Codebook.num_cells cb. \<forall>i<input_dim cb.
          array (apply_batch_som_update cb data nb bmus cutoff) ! (c * input_dim cb + i)
          = (if fst (batch_sums data nb bmus ?eff (input_dim cb) c) \<noteq> 0
             then snd (batch_sums data nb bmus ?eff (input_dim cb) c) ! i
                  / fst (batch_sums data nb bmus ?eff (input_dim cb) c)
             else array cb ! (c * input_dim cb + i))"
    if len: "length (array cb) = Codebook.num_cells cb * input_dim cb"
  proof (intro allI impI)
    fix c i assume c: "c < Codebook.num_cells cb" and i: "i < input_dim cb"
    have "input_dim cb * c + i < input_dim cb * Codebook.num_cells cb"
      using c i by (rule key_less)
    then have "c * input_dim cb + i < length (array cb)"
      by (simp add: len mult.commute)
    from batch_cells_nth [OF i this, of data nb bmus ?eff "[0..<Codebook.num_cells cb]"] c
    show "array (apply_batch_som_update cb data nb bmus cutoff) ! (c * input_dim cb + i)
          = (if fst (batch_sums data nb bmus ?eff (input_dim cb) c) \<noteq> 0
             then snd (batch_sums data nb bmus ?eff (input_dim cb) c) ! i
                  / fst (batch_sums data nb bmus ?eff (input_dim cb) c)
             else array cb ! (c * input_dim cb + i))"
      unfolding as_fold by simp
  qed
  show "length (array (apply_batch_som_update cb data nb bmus cutoff)) = length (array cb)"
    unfolding as_fold by (rule batch_cells_length)
  show "\<forall>x\<in>set (array (apply_batch_som_update cb data nb bmus cutoff)). 0 \<le> x \<and> x \<le> 1"
    if "(\<forall>row<num_rows data. distinct (row_indices data row))
        \<and> (\<forall>x\<in>set (array cb). 0 \<le> x \<and> x \<le> 1)"
    unfolding as_fold using that by (intro batch_cells_unit_interval) simp_all
qed

theorem batch_update_unit_interval_witness:
  "Codebook_new 1 2 2 PLANE RECT = Inr (codebook_two_cells\<lparr>array := []\<rparr>)
   \<and> size' (codebook_two_cells\<lparr>array := []\<rparr>) = 4
   \<and> array (init (codebook_two_cells\<lparr>array := []\<rparr>) (\<lambda>i. 1 / 2)) = [1 / 2, 1 / 2, 1 / 2, 1 / 2]
   \<and> length (array (init (codebook_two_cells\<lparr>array := []\<rparr>) (\<lambda>i. 1 / 2)))
       = size' (codebook_two_cells\<lparr>array := []\<rparr>)
   \<and> list_all (\<lambda>x. 0 \<le> x \<and> x \<le> 1)
        (array (init (codebook_two_cells\<lparr>array := []\<rparr>) (\<lambda>i. 1 / 2)))
   \<and> num_rows corpus_one_row = 1
   \<and> distinct (row_indices corpus_one_row 0)
   \<and> list_all (\<lambda>x. 0 \<le> x \<and> x \<le> 1) (array codebook_two_cells)
   \<and> length (array codebook_two_cells)
       = Codebook.num_cells codebook_two_cells * input_dim codebook_two_cells
   \<and> influence neighbourhood_1x2 0 0 = 1
   \<and> influence neighbourhood_1x2 0 1 = 0
   \<and> apply_batch_som_update codebook_two_cells corpus_one_row neighbourhood_1x2 [0] 0
       = codebook_two_cells\<lparr>array := [1, 0, 0, 1]\<rparr>
   \<and> list_all (\<lambda>x. 0 \<le> x \<and> x \<le> 1)
        (array (apply_batch_som_update codebook_two_cells corpus_one_row neighbourhood_1x2 [0] 0))"
proof -
  let ?fresh = "codebook_two_cells\<lparr>array := []\<rparr>"
  have new: "Codebook_new 1 2 2 PLANE RECT = Inr ?fresh"
    by (simp add: Codebook_new_def codebook_two_cells_def u16_def)
  have sz: "size' ?fresh = 4" by (simp add: codebook_two_cells_def)
  have rows: "num_rows corpus_one_row = 1"
    by (simp add: corpus_one_row_def init_sum_of_squares_def)
  have idx: "row_indices corpus_one_row 0 = [0]"
    by (simp add: row_indices_def corpus_one_row_def init_sum_of_squares_def
        num_indices_in_row_def indices_in_row_def)
  have h1: "\<forall>row<num_rows corpus_one_row. distinct (row_indices corpus_one_row row)"
    by (simp add: rows idx)
  have h2: "\<forall>x\<in>set (array codebook_two_cells). 0 \<le> x \<and> x \<le> 1"
    by (simp add: codebook_two_cells_def)
  have h3: "length (array codebook_two_cells)
            = Codebook.num_cells codebook_two_cells * input_dim codebook_two_cells"
    by (simp add: codebook_two_cells_def)
  have h4: "\<forall>i < size' ?fresh. (0::real) \<le> 1 / 2 \<and> (1 / 2 :: real) \<le> 1" by simp
  note main = batch_update_unit_interval [where ?cb0.0 = ?fresh and uniform = "\<lambda>i. 1 / 2"
      and data = corpus_one_row and cb = codebook_two_cells and nb = neighbourhood_1x2
      and bmus = "[0]" and cutoff = 0]
  from main h4 have init_ok: "length (array (init ?fresh (\<lambda>i. 1 / 2))) = size' ?fresh
      \<and> (\<forall>x\<in>set (array (init ?fresh (\<lambda>i. 1 / 2))). (0::real) \<le> x \<and> x \<le> 1)"
    by blast
  from main h1 h2 have batch_ok:
    "\<forall>x\<in>set (array (apply_batch_som_update codebook_two_cells corpus_one_row
                        neighbourhood_1x2 [0] 0)). 0 \<le> x \<and> x \<le> 1"
    by blast
  have four: "[0..<4] = [0, 1, 2, 3]" by (simp add: upt_rec)
  have init_run: "array (init ?fresh (\<lambda>i. 1 / 2)) = [1 / 2, 1 / 2, 1 / 2, 1 / 2]"
    by (simp add: init_def sz four)
  have i00: "influence neighbourhood_1x2 0 0 = 1"
    by (simp add: influence_def neighbourhood_1x2_def dist_rect_plane_def u16_def
        squared_def SQRT_E_def)
  have i01: "influence neighbourhood_1x2 0 1 = 0"
    by (simp add: influence_def neighbourhood_1x2_def dist_rect_plane_def u16_def)
  have run: "apply_batch_som_update codebook_two_cells corpus_one_row neighbourhood_1x2 [0] 0
             = codebook_two_cells\<lparr>array := [1, 0, 0, 1]\<rparr>"
    by (simp add: apply_batch_som_update_def batch_cell_def batch_row_def rows idx i00
        i01 [unfolded One_nat_def] row_indices_def [symmetric] codebook_two_cells_def
        upt_rec Let_def)
  have l1: "list_all (\<lambda>x. 0 \<le> x \<and> x \<le> 1) (array (init ?fresh (\<lambda>i. 1 / 2)))"
    using init_ok by (simp only: list_all_iff) blast
  have l2: "list_all (\<lambda>x. 0 \<le> x \<and> x \<le> 1)
        (array (apply_batch_som_update codebook_two_cells corpus_one_row neighbourhood_1x2 [0] 0))"
    using batch_ok by (simp only: list_all_iff)
  have l3: "list_all (\<lambda>x. 0 \<le> x \<and> x \<le> 1) (array codebook_two_cells)"
    using h2 by (simp only: list_all_iff)
  from init_ok have len: "length (array (init ?fresh (\<lambda>i. 1 / 2))) = size' ?fresh" by blast
  have d: "distinct (row_indices corpus_one_row 0)" by (simp add: idx)
  from new sz init_run len l1 rows d l3 h3 i00 i01 run l2 show ?thesis
    by (intro conjI)
qed

end
